theory Spec2Isabelle
  imports Complex_Main
begin

section \<open>Process-wide state and the upstream collaborator\<close>

text \<open>
  The gateway (\<^verbatim>\<open>app.mjs\<close>) keeps two module-level mutable objects: the capability cache
  \<^verbatim>\<open>modelConfigCache\<close> and the \<^verbatim>\<open>circuitBreaker\<close>. Both live in \<open>process_state\<close>, together
  with the wall clock read by \<^verbatim>\<open>Date.now()\<close> (milliseconds), the trace of calls made on
  \<^verbatim>\<open>chatClient\<close> and the files written with \<^verbatim>\<open>fs.writeFile\<close>. Every function of the source
  that touches one of them takes the state and returns the new one. Requests are modelled
  one at a time: interleavings of several in-flight handlers at their \<^verbatim>\<open>await\<close> points are
  outside this embedding. Log output (\<^verbatim>\<open>console.*\<close>, \<^verbatim>\<open>logToFile\<close>) is not modelled.
\<close>

text \<open>
  A value stored under a key of \<^verbatim>\<open>modelConfigCache\<close>. The cache is a plain object literal, so a
  key such as \<^verbatim>\<open>constructor\<close> reads a member inherited from \<^verbatim>\<open>Object.prototype\<close>; such a value is
  truthy and has no \<^verbatim>\<open>max_tokens\<close>.
\<close>

datatype model_config = Config int | Inherited_property

fun config_max_tokens :: "model_config \<Rightarrow> int option" where
  "config_max_tokens (Config n) = Some n"
| "config_max_tokens Inherited_property = None"

record circuit_breaker =
  failureCount :: nat
  threshold :: nat
  "open" :: bool
  openUntil :: nat

datatype 'd api_call = Models_retrieve string | Chat_completions_create 'd

record 'd process_state =
  modelConfigCache :: "string \<rightharpoonup> model_config"
  circuitBreaker :: circuit_breaker
  clock :: nat
  upstream_calls :: "'d api_call list"
  disk_writes :: "(string \<times> string) list"

text \<open>
  The upstream API is an oracle. Each call is answered from the number of calls made so far
  and its argument, with the milliseconds the call took. \<open>models_retrieve\<close> only says whether
  the lookup succeeded (the source ignores \<^verbatim>\<open>modelInfo\<close>); \<open>chat_create\<close> returns the error
  thrown or the completion.
\<close>

record ('d, 'e, 'c) upstream =
  models_retrieve :: "nat \<Rightarrow> string \<Rightarrow> bool \<times> nat"
  chat_create :: "nat \<Rightarrow> 'd \<Rightarrow> ('e + 'c) \<times> nat"

text \<open>
  The errors of the program, by what throws them: \<^verbatim>\<open>new Error(message)\<close>, a TypeError for
  reading a property of \<^verbatim>\<open>undefined\<close> or \<^verbatim>\<open>null\<close>, a TypeError for calling what is not a
  function (\<^verbatim>\<open>system.map is not a function\<close>), an error of the upstream API, an error of
  \<^verbatim>\<open>fs.writeFile\<close>, and the error of Node for writing headers that are already sent.
\<close>

datatype 'e js_error =
    Error_message string
  | TypeError_reading string
  | TypeError_not_a_function string
  | Upstream_error 'e
  | Fs_error 'e
  | ERR_HTTP_HEADERS_SENT

text \<open>\<^verbatim>\<open>chatClient.models.retrieve(modelName)\<close> and \<^verbatim>\<open>chatClient.chat.completions.create(data)\<close>.\<close>

definition chatClient_models_retrieve ::
  "('d, 'e, 'c) upstream \<Rightarrow> string \<Rightarrow> 'd process_state \<Rightarrow> bool \<times> 'd process_state" where
  "chatClient_models_retrieve up modelName s =
     (let (ok, ms) = models_retrieve up (length (upstream_calls s)) modelName
      in (ok, s\<lparr>clock := clock s + ms,
                upstream_calls := upstream_calls s @ [Models_retrieve modelName]\<rparr>))"

definition chatClient_create ::
  "('d, 'e, 'c) upstream \<Rightarrow> 'd \<Rightarrow> 'd process_state \<Rightarrow> ('e + 'c) \<times> 'd process_state" where
  "chatClient_create up data s =
     (let (r, ms) = chat_create up (length (upstream_calls s)) data
      in (r, s\<lparr>clock := clock s + ms,
               upstream_calls := upstream_calls s @ [Chat_completions_create data]\<rparr>))"

definition circuitBreaker_init :: circuit_breaker where
  "circuitBreaker_init = \<lparr>failureCount = 0, threshold = 3, open = False, openUntil = 0\<rparr>"

definition object_prototype_keys :: "string list" where
  "object_prototype_keys =
     [''constructor'', ''__defineGetter__'', ''__defineSetter__'', ''hasOwnProperty'',
      ''__lookupGetter__'', ''__lookupSetter__'', ''isPrototypeOf'', ''propertyIsEnumerable'',
      ''toString'', ''valueOf'', ''__proto__'', ''toLocaleString'']"

definition modelConfigCache_init :: "string \<rightharpoonup> model_config" where
  "modelConfigCache_init =
     (\<lambda>k. if k \<in> set object_prototype_keys then Some Inherited_property else None)"

definition process_init :: "nat \<Rightarrow> 'd process_state" where
  "process_init t =
     \<lparr>modelConfigCache = modelConfigCache_init, circuitBreaker = circuitBreaker_init,
      clock = t, upstream_calls = [], disk_writes = []\<rparr>"

section \<open>Model Capability Resolver\<close>

definition startsWith :: "string \<Rightarrow> string \<Rightarrow> bool" where
  "startsWith s p = (take (length p) s = p)"

text \<open>The \<^verbatim>\<open>startsWith\<close> chain of \<^verbatim>\<open>getModelConfig\<close>, in the order of the source.\<close>

definition maxCompletionTokens :: "string \<Rightarrow> int" where
  "maxCompletionTokens modelName =
     (if startsWith modelName ''gpt-4o-mini'' then 16384
      else if startsWith modelName ''gpt-4o'' then 16384
      else if startsWith modelName ''o1'' then 32000
      else if startsWith modelName ''o1-mini'' then 64000
      else if startsWith modelName ''o3-mini'' then 100000
      else if startsWith modelName ''gpt-4'' then 4096
      else 16384)"

definition getModelConfig ::
  "('d, 'e, 'c) upstream \<Rightarrow> string \<Rightarrow> 'd process_state \<Rightarrow> model_config \<times> 'd process_state" where
  "getModelConfig up modelName s =
     (case modelConfigCache s modelName of
        Some cached \<Rightarrow> (cached, s)
      | None \<Rightarrow>
          (let (ok, s1) = chatClient_models_retrieve up modelName s;
               config = (if ok then Config (maxCompletionTokens modelName) else Config 16384)
           in (config, s1\<lparr>modelConfigCache := (modelConfigCache s1)(modelName \<mapsto> config)\<rparr>)))"

text \<open>Resolving a list of model names one after the other (the results are dropped).\<close>

fun getModelConfig_each ::
  "('d, 'e, 'c) upstream \<Rightarrow> string list \<Rightarrow> 'd process_state \<Rightarrow> 'd process_state" where
  "getModelConfig_each up [] s = s"
| "getModelConfig_each up (n # ns) s = getModelConfig_each up ns (snd (getModelConfig up n s))"

definition lookups_of :: "string \<Rightarrow> 'd process_state \<Rightarrow> nat" where
  "lookups_of modelName s = length (filter (\<lambda>c. c = Models_retrieve modelName) (upstream_calls s))"

section \<open>Resilient Invoker\<close>

definition maxAttempts :: nat where
  "maxAttempts = 10"

text \<open>
  The \<^verbatim>\<open>for\<close> loop of \<^verbatim>\<open>getCompletionWithRetry\<close>. \<^verbatim>\<open>setTimeout\<close> advances the clock by the
  delay. A loop that ran past \<open>maxAttempts\<close> would fall off the end of the function, which
  returns \<^verbatim>\<open>undefined\<close> (\<open>Inr None\<close>).
\<close>

function retry_loop ::
  "('d, 'e, 'c) upstream \<Rightarrow> 'd \<Rightarrow> nat \<Rightarrow> nat \<Rightarrow> 'd process_state \<Rightarrow>
     ('e js_error + 'c option) \<times> 'd process_state" where
  "retry_loop up data attempt delay s =
     (if attempt \<le> maxAttempts then
        (let (r, s1) = chatClient_create up data s
         in case r of
              Inr completion \<Rightarrow>
                (Inr (Some completion),
                 s1\<lparr>circuitBreaker := (circuitBreaker s1)\<lparr>failureCount := 0\<rparr>\<rparr>)
            | Inl err \<Rightarrow>
                (let cb = (circuitBreaker s1)\<lparr>failureCount := failureCount (circuitBreaker s1) + 1\<rparr>
                 in if failureCount cb \<ge> threshold cb then
                      (Inl (Upstream_error err),
                       s1\<lparr>circuitBreaker := cb\<lparr>open := True, openUntil := clock s1 + 30000\<rparr>\<rparr>)
                    else if attempt = maxAttempts then
                      (Inl (Upstream_error err), s1\<lparr>circuitBreaker := cb\<rparr>)
                    else
                      retry_loop up data (attempt + 1) (delay * 2)
                        (s1\<lparr>circuitBreaker := cb, clock := clock s1 + delay\<rparr>)))
      else (Inr None, s))"
  by pat_completeness auto
termination
  by (relation "measure (\<lambda>(up, data, attempt, delay, s). Suc maxAttempts - attempt)") auto

definition getCompletionWithRetry ::
  "('d, 'e, 'c) upstream \<Rightarrow> 'd \<Rightarrow> 'd process_state \<Rightarrow>
     ('e js_error + 'c option) \<times> 'd process_state" where
  "getCompletionWithRetry up data s =
     (let now = clock s; cb = circuitBreaker s
      in if open cb \<and> now < openUntil cb then
           (Inl (Error_message ''Circuit breaker open, try later.''), s)
         else if open cb \<and> now \<ge> openUntil cb then
           retry_loop up data 1 1000 (s\<lparr>circuitBreaker := cb\<lparr>open := False, failureCount := 0\<rparr>\<rparr>)
         else retry_loop up data 1 1000 s)"


section \<open>Stream Translator\<close>

text \<open>
  What the \<^verbatim>\<open>for await\<close> loop of the handler reads from a chunk: \<^verbatim>\<open>chunk.choices[0].delta\<close>,
  its \<^verbatim>\<open>tool_calls\<close> (absent is \<open>[]\<close>: both fail the test of line 308), of a tool call
  \<^verbatim>\<open>function.name\<close> and \<^verbatim>\<open>function.arguments\<close>, and \<^verbatim>\<open>delta.content\<close>. A choice is
  identified with its delta. \<open>None\<close> is \<^verbatim>\<open>undefined\<close> or \<^verbatim>\<open>null\<close>.
\<close>

record tool_call =
  call_name :: "string option"
  call_arguments :: "string option"

record delta =
  tool_calls :: "tool_call list"
  content :: "string option"

record chunk =
  choices :: "delta list"

text \<open>
  A completion is the chunks the stream yields, each with the milliseconds waited for it,
  and the error the iterator throws after them, if any.
\<close>

record 'e completion =
  chunks :: "(nat \<times> chunk) list"
  stream_error :: "'e option"

text \<open>
  A number is truthy when it is present and not 0 (a string when it is present and not
  empty: the tests on strings are written out where they occur).
\<close>

definition truthy_number :: "int option \<Rightarrow> bool" where
  "truthy_number x = (case x of None \<Rightarrow> False | Some n \<Rightarrow> n \<noteq> 0)"

text \<open>
  The entries of \<^verbatim>\<open>currentContentBlocks\<close>. A text block is pushed as
  \<^verbatim>\<open>{type: "text", text: ""}\<close>, a tool-use block as \<^verbatim>\<open>{type: "tool_use", id, name, input: {}}\<close>;
  the loop later assigns \<^verbatim>\<open>input\<close> and appends to \<^verbatim>\<open>text\<close> of whatever block sits at
  \<^verbatim>\<open>contentBlockIndex\<close>, so every property is optional. Identifiers are kept as the
  timestamp they are built from (\<^verbatim>\<open>"msg_" + Date.now()\<close>, \<^verbatim>\<open>`toolu_${Date.now()}`\<close>).
\<close>

datatype block_type = Text | Tool_use

datatype 'j block_input = Empty_object | Parsed 'j

datatype sse_id = Msg nat | Toolu nat

record 'j content_block =
  block_type :: block_type
  block_text :: "string option"
  block_id :: "sse_id option"
  block_name :: "string option"
  block_input :: "'j block_input option"

datatype block_delta = Text_delta string | Input_json_delta string

datatype stop_reason = Stop_tool_use | Stop_end_turn

text \<open>
  The server-sent events written with \<^verbatim>\<open>res.write\<close>, with the fields of their payload that
  vary: \<^verbatim>\<open>message_start\<close> (message id, model), \<^verbatim>\<open>content_block_start\<close> (index, content
  block), \<^verbatim>\<open>content_block_delta\<close> (index, delta), \<^verbatim>\<open>content_block_stop\<close> (index),
  \<^verbatim>\<open>files_created\<close> (files), \<^verbatim>\<open>message_delta\<close> (stop reason, content), \<^verbatim>\<open>message_stop\<close>.
\<close>

datatype 'j sse_event =
    Message_start sse_id string
  | Content_block_start nat "'j content_block"
  | Content_block_delta nat block_delta
  | Content_block_stop nat
  | Files_created "string list"
  | Message_delta stop_reason "'j content_block list"
  | Message_stop

text \<open>
  The local variables of the handler that the loop updates, the events it has written so
  far (\<open>events\<close>, oldest first) and the time (\<open>time\<close>, what \<^verbatim>\<open>Date.now()\<close> returns).
\<close>

record 'j stream_state =
  contentBlockIndex :: nat
  currentContentBlocks :: "'j content_block list"
  hasStartedTextBlock :: bool
  isToolUse :: bool
  toolUseJson :: string
  fullOutput :: string
  events :: "'j sse_event list"
  time :: nat

definition stream_state_init :: "nat \<Rightarrow> 'j stream_state" where
  "stream_state_init t =
     \<lparr>contentBlockIndex = 0, currentContentBlocks = [], hasStartedTextBlock = False,
      isToolUse = False, toolUseJson = [], fullOutput = [], events = [], time = t\<rparr>"

definition res_write_event :: "'j sse_event \<Rightarrow> 'j stream_state \<Rightarrow> 'j stream_state" where
  "res_write_event ev st = st\<lparr>events := events st @ [ev]\<rparr>"

text \<open>
  \<^verbatim>\<open>currentContentBlocks[contentBlockIndex].input = parsedJson\<close> sits inside the
  \<^verbatim>\<open>try\<close> of line 341: with no block at the index the TypeError is swallowed.
\<close>

definition assign_input :: "'j content_block list \<Rightarrow> nat \<Rightarrow> 'j \<Rightarrow> 'j content_block list" where
  "assign_input blocks i v =
     (if i < length blocks then blocks[i := (blocks ! i)\<lparr>block_input := Some (Parsed v)\<rparr>]
      else blocks)"

text \<open>
  \<^verbatim>\<open>if (currentContentBlocks[contentBlockIndex]) currentContentBlocks[contentBlockIndex].text += delta.content\<close>;
  on a block without \<^verbatim>\<open>text\<close> the sum starts from the string \<^verbatim>\<open>undefined\<close>.
\<close>

definition append_text :: "'j content_block list \<Rightarrow> nat \<Rightarrow> string \<Rightarrow> 'j content_block list" where
  "append_text blocks i t =
     (if i < length blocks then
        blocks[i := (blocks ! i)
          \<lparr>block_text :=
             Some ((case block_text (blocks ! i) of None \<Rightarrow> ''undefined'' | Some old \<Rightarrow> old) @ t)\<rparr>]
      else blocks)"

definition text_block :: "'j content_block" where
  "text_block =
     \<lparr>block_type = Text, block_text = Some [], block_id = None, block_name = None,
      block_input = None\<rparr>"

definition tool_use_block :: "nat \<Rightarrow> string option \<Rightarrow> 'j content_block" where
  "tool_use_block t n =
     \<lparr>block_type = Tool_use, block_text = None, block_id = Some (Toolu t), block_name = n,
      block_input = Some Empty_object\<rparr>"

text \<open>Lines 309 to 348: a delta with tool calls.\<close>

definition on_tool_call ::
  "(string \<Rightarrow> 'j option) \<Rightarrow> tool_call \<Rightarrow> 'j stream_state \<Rightarrow> 'j stream_state" where
  "on_tool_call JSON_parse toolCall st =
     (let st1 =
            (if \<not> isToolUse st then
               (res_write_event
                  (Content_block_start (contentBlockIndex st)
                     (tool_use_block (time st) (call_name toolCall)))
                  (st\<lparr>isToolUse := True,
                      currentContentBlocks :=
                        currentContentBlocks st @ [tool_use_block (time st) (call_name toolCall)]\<rparr>))
               \<lparr>toolUseJson := []\<rparr>
             else st)
      in case call_arguments toolCall of
           None \<Rightarrow> st1
         | Some arguments \<Rightarrow>
             if arguments = [] then st1
             else
               (let json = toolUseJson st1 @ arguments;
                    st2 = st1\<lparr>toolUseJson := json,
                             currentContentBlocks :=
                               (case JSON_parse json of
                                  Some parsedJson \<Rightarrow>
                                    assign_input (currentContentBlocks st1) (contentBlockIndex st1)
                                      parsedJson
                                | None \<Rightarrow> currentContentBlocks st1)\<rparr>
                in res_write_event
                     (Content_block_delta (contentBlockIndex st2) (Input_json_delta arguments)) st2))"

text \<open>Lines 350 to 393: a delta with text and no tool call.\<close>

definition on_content :: "string option \<Rightarrow> string \<Rightarrow> 'j stream_state \<Rightarrow> 'j stream_state" where
  "on_content mode t st =
     (let st1 = (if mode = Some ''file'' then st\<lparr>fullOutput := fullOutput st @ t\<rparr> else st)
      in if \<not> isToolUse st1 then
           (let st2 =
                  (if \<not> hasStartedTextBlock st1 then
                     (res_write_event (Content_block_start (contentBlockIndex st1) text_block)
                        (st1\<lparr>currentContentBlocks := currentContentBlocks st1 @ [text_block]\<rparr>))
                     \<lparr>hasStartedTextBlock := True\<rparr>
                   else st1);
                st3 = st2\<lparr>currentContentBlocks :=
                            append_text (currentContentBlocks st2) (contentBlockIndex st2) t\<rparr>
            in if mode \<noteq> Some ''file'' then
                 res_write_event (Content_block_delta (contentBlockIndex st3) (Text_delta t)) st3
               else st3)
         else
           (res_write_event (Content_block_stop (contentBlockIndex st1)) st1)
             \<lparr>contentBlockIndex := contentBlockIndex st1 + 1, isToolUse := False,
              hasStartedTextBlock := False\<rparr>)"

text \<open>The body of the loop for one delta (lines 308 to 394).\<close>

definition on_delta ::
  "(string \<Rightarrow> 'j option) \<Rightarrow> string option \<Rightarrow> delta \<Rightarrow> 'j stream_state \<Rightarrow> 'j stream_state" where
  "on_delta JSON_parse mode d st =
     (case tool_calls d of
        toolCall # _ \<Rightarrow> on_tool_call JSON_parse toolCall st
      | [] \<Rightarrow>
          (case content d of
             None \<Rightarrow> st
           | Some t \<Rightarrow> if t = [] then st else on_content mode t st))"

text \<open>
  The loop (lines 306 to 395). A chunk without choices makes \<^verbatim>\<open>chunk.choices[0].delta\<close>
  throw; the loop stops there with what it has written.
\<close>

fun consume ::
  "(string \<Rightarrow> 'j option) \<Rightarrow> string option \<Rightarrow> (nat \<times> chunk) list \<Rightarrow> 'j stream_state \<Rightarrow>
     'e js_error option \<times> 'j stream_state" where
  "consume JSON_parse mode [] st = (None, st)"
| "consume JSON_parse mode ((ms, c) # cs) st =
     (case choices c of
        [] \<Rightarrow> (Some (TypeError_reading ''delta''), st\<lparr>time := time st + ms\<rparr>)
      | d # _ \<Rightarrow>
          consume JSON_parse mode cs
            (on_delta JSON_parse mode d (st\<lparr>time := time st + ms\<rparr>)))"

section \<open>Vocabulary for the properties of the event sequence\<close>

fun is_content_block_start :: "'j sse_event \<Rightarrow> bool" where
  "is_content_block_start (Content_block_start i b) = True"
| "is_content_block_start ev = False"

fun is_content_block_stop :: "'j sse_event \<Rightarrow> bool" where
  "is_content_block_stop (Content_block_stop i) = True"
| "is_content_block_stop ev = False"

fun is_content_block_event :: "'j sse_event \<Rightarrow> bool" where
  "is_content_block_event (Content_block_start i b) = True"
| "is_content_block_event (Content_block_delta i d) = True"
| "is_content_block_event (Content_block_stop i) = True"
| "is_content_block_event ev = False"

fun is_text_delta :: "'j sse_event \<Rightarrow> bool" where
  "is_text_delta (Content_block_delta i (Text_delta t)) = True"
| "is_text_delta ev = False"

fun is_message_start :: "'j sse_event \<Rightarrow> bool" where
  "is_message_start (Message_start i m) = True"
| "is_message_start ev = False"

fun is_message_delta :: "'j sse_event \<Rightarrow> bool" where
  "is_message_delta (Message_delta r c) = True"
| "is_message_delta ev = False"

fun is_message_stop :: "'j sse_event \<Rightarrow> bool" where
  "is_message_stop Message_stop = True"
| "is_message_stop ev = False"

definition count_events :: "('j sse_event \<Rightarrow> bool) \<Rightarrow> 'j sse_event list \<Rightarrow> nat" where
  "count_events p evs = length (filter p evs)"

text \<open>
  A stream in which every chunk carries one choice and which ends without an error: the
  deltas \<open>ds\<close>, each with the milliseconds waited for it.
\<close>

definition completion_of :: "(nat \<times> delta) list \<Rightarrow> 'e completion" where
  "completion_of ds =
     \<lparr>chunks = map (\<lambda>(ms, d). (ms, \<lparr>choices = [d]\<rparr>)) ds, stream_error = None\<rparr>"

text \<open>The state of the loop after the deltas \<open>ds\<close>.\<close>

fun after_deltas ::
  "(string \<Rightarrow> 'j option) \<Rightarrow> string option \<Rightarrow> (nat \<times> delta) list \<Rightarrow> 'j stream_state \<Rightarrow>
     'j stream_state" where
  "after_deltas JSON_parse mode [] st = st"
| "after_deltas JSON_parse mode ((ms, d) # ds) st =
     after_deltas JSON_parse mode ds (on_delta JSON_parse mode d (st\<lparr>time := time st + ms\<rparr>))"

text \<open>
  No delta with tool calls arrives while a text block is open and no tool-use block is:
  the case in which the loop opens a tool-use block at the index of the open text block.
\<close>

fun no_tool_call_over_text ::
  "(string \<Rightarrow> 'j option) \<Rightarrow> string option \<Rightarrow> (nat \<times> delta) list \<Rightarrow> 'j stream_state \<Rightarrow> bool" where
  "no_tool_call_over_text JSON_parse mode [] st = True"
| "no_tool_call_over_text JSON_parse mode ((ms, d) # ds) st =
     (if tool_calls d \<noteq> [] \<and> hasStartedTextBlock st \<and> \<not> isToolUse st then False
      else no_tool_call_over_text JSON_parse mode ds
             (on_delta JSON_parse mode d (st\<lparr>time := time st + ms\<rparr>)))"

text \<open>The text of the deltas that reach the text branch of the loop, concatenated.\<close>

definition text_of_deltas :: "(nat \<times> delta) list \<Rightarrow> string" where
  "text_of_deltas ds =
     concat (map (\<lambda>(ms, d). if tool_calls d = [] then (case content d of None \<Rightarrow> [] | Some t \<Rightarrow> t)
                              else []) ds)"

text \<open>
  What the loop in file mode shares with the loop in another mode: every variable but
  \<^verbatim>\<open>fullOutput\<close>, and the events written, the text deltas apart.
\<close>

definition same_but_text_deltas :: "'j stream_state \<Rightarrow> 'j stream_state \<Rightarrow> bool" where
  "same_but_text_deltas file_st stream_st \<longleftrightarrow>
     contentBlockIndex file_st = contentBlockIndex stream_st \<and>
     currentContentBlocks file_st = currentContentBlocks stream_st \<and>
     hasStartedTextBlock file_st = hasStartedTextBlock stream_st \<and>
     isToolUse file_st = isToolUse stream_st \<and>
     toolUseJson file_st = toolUseJson stream_st \<and>
     time file_st = time stream_st \<and>
     events file_st = filter (\<lambda>e. \<not> is_text_delta e) (events stream_st)"

text \<open>The errors that are a \<^verbatim>\<open>TypeError\<close>.\<close>

fun is_TypeError :: "'e js_error \<Rightarrow> bool" where
  "is_TypeError (TypeError_reading p) = True"
| "is_TypeError (TypeError_not_a_function f) = True"
| "is_TypeError e = False"

section \<open>Request Translator\<close>

text \<open>
  The body of \<^verbatim>\<open>POST /v1/messages\<close> as the handler destructures it (\<^verbatim>\<open>metadata\<close> is never
  read). \<open>'j\<close> stands for JSON values the handler only passes on. A content part keeps its
  \<^verbatim>\<open>type\<close>, \<^verbatim>\<open>text\<close> and \<^verbatim>\<open>content\<close>, and its other properties in \<open>part_rest\<close> (the spread
  \<^verbatim>\<open>...it\<close> copies them). The body is an object. \<^verbatim>\<open>system\<close>, \<^verbatim>\<open>messages\<close> and \<^verbatim>\<open>tools\<close>
  are mapped as arrays, so each is a \<open>maybe_array\<close>: absent, \<^verbatim>\<open>null\<close>, another value that
  is no array, or an array whose entries may be \<^verbatim>\<open>null\<close> (\<open>None\<close>). An entry that is no
  object has none of the properties the handler reads and is the record with every
  property absent, and a property that is \<^verbatim>\<open>null\<close> counts as absent. The other properties
  have the types the target protocol gives them: a model, a role, a text and a description
  are strings, numbers that count tokens are integers, and no value that is not an array
  brings a \<^verbatim>\<open>map\<close> of its own.
\<close>

datatype ('a, 'j) maybe_array = Undefined | Null | Not_array 'j | Array "'a option list"

record 'j content_part =
  part_type :: "string option"
  part_text :: "string option"
  part_content :: "'j option"
  part_rest :: "(string \<times> 'j) list"

datatype 'j message_content =
    Parts "'j content_part list"
  | Scalar 'j
  | Text_content "string option"

record 'j message =
  role :: "string option"
  msg_content :: "'j message_content"

datatype system_block = System_block "string option"

record 'j tool_definition =
  name :: "string option"
  description :: "string option"
  input_schema :: "'j option"

record 'j request =
  model :: "string option"
  max_tokens :: "int option"
  max_completion_tokens :: "int option"
  messages :: "('j message, 'j) maybe_array"
  system :: "(system_block, 'j) maybe_array"
  temperature :: "rat option"
  tools :: "('j tool_definition, 'j) maybe_array"
  output_mode :: "string option"

text \<open>The object \<^verbatim>\<open>data\<close> passed to \<^verbatim>\<open>chatClient.chat.completions.create\<close>.\<close>

record 'j function_schema =
  fn_name :: "string option"
  fn_description :: string
  fn_parameters :: "'j option"

record 'j upstream_request =
  data_model :: string
  data_messages :: "'j message list"
  data_stream :: bool
  data_temperature :: "rat option"
  data_max_completion_tokens :: "int option"
  data_max_tokens :: "int option"
  data_tools :: "'j function_schema list option"

text \<open>
  What the handler takes from its surroundings: the configured default model
  (\<^verbatim>\<open>process.env.OPENAI_MODEL || 'o3-mini'\<close>), \<^verbatim>\<open>JSON.parse\<close> (\<open>None\<close> when it throws),
  \<^verbatim>\<open>JSON.stringify\<close>, the truthiness of a JSON value, and \<^verbatim>\<open>fs.writeFile\<close> (the error it
  rejects with, if any).
\<close>

record ('j, 'e) env =
  defaultModel :: string
  JSON_parse :: "string \<Rightarrow> 'j option"
  JSON_stringify :: "'j \<Rightarrow> string"
  truthy :: "'j \<Rightarrow> bool"
  fs_writeFile :: "string \<Rightarrow> string \<Rightarrow> 'e option"

definition allowedModels :: "string list" where
  "allowedModels = [''o1'', ''o1-mini'', ''o3'', ''o3-mini'', ''gpt-4o-mini'', ''gpt-4o'', ''gpt-4'']"

definition defaultSystemInstruction :: string where
  "defaultSystemInstruction =
     ''You are running in Claude Code CLI, so if you are requested to create files, folders or run commands, execute it instead of outputing.''"

text \<open>Lines 197 to 201.\<close>

definition choose_model :: "string \<Rightarrow> string option \<Rightarrow> string" where
  "choose_model dflt m =
     (let chosenModel = (case m of None \<Rightarrow> dflt | Some n \<Rightarrow> if n = [] then dflt else n)
      in if chosenModel \<in> set allowedModels then chosenModel else dflt)"

text \<open>
  \<^verbatim>\<open>Array.prototype.map\<close> with a callback that may throw: the entries are mapped from the
  left and the first throw ends the call.
\<close>

fun map_items :: "('a option \<Rightarrow> 'e js_error + 'b) \<Rightarrow> 'a option list \<Rightarrow> 'e js_error + 'b list" where
  "map_items f [] = Inr []"
| "map_items f (x # xs) =
     (case f x of
        Inl e \<Rightarrow> Inl e
      | Inr y \<Rightarrow> (case map_items f xs of Inl e \<Rightarrow> Inl e | Inr ys \<Rightarrow> Inr (y # ys)))"

text \<open>
  Lines 206 to 209. The default \<^verbatim>\<open>system = []\<close> of the destructuring stands in for an
  absent \<^verbatim>\<open>system\<close> only; \<^verbatim>\<open>system.map\<close> throws on \<^verbatim>\<open>null\<close> and on a value that is no
  array (a string, as the target protocol allows), and \<^verbatim>\<open>item.text\<close> throws on a
  \<^verbatim>\<open>null\<close> entry.
\<close>

definition defaultSystemMessage :: "'j message" where
  "defaultSystemMessage =
     \<lparr>role = Some ''system'', msg_content = Text_content (Some defaultSystemInstruction)\<rparr>"

definition system_item :: "system_block option \<Rightarrow> 'e js_error + 'j message" where
  "system_item item =
     (case item of
        None \<Rightarrow> Inl (TypeError_reading ''text'')
      | Some (System_block t) \<Rightarrow> Inr \<lparr>role = Some ''system'', msg_content = Text_content t\<rparr>)"

definition systemMessages :: "(system_block, 'j) maybe_array \<Rightarrow> 'e js_error + 'j message list" where
  "systemMessages sys =
     (case (case sys of
              Undefined \<Rightarrow> Inr []
            | Null \<Rightarrow> Inl (TypeError_reading ''map'')
            | Not_array v \<Rightarrow> Inl (TypeError_not_a_function ''system.map'')
            | Array items \<Rightarrow> map_items system_item items) of
        Inl e \<Rightarrow> Inl e
      | Inr ms \<Rightarrow> Inr (ms @ [defaultSystemMessage]))"

text \<open>Lines 215 to 225: one part of a message whose content is an array.\<close>

definition flatten_part :: "('j, 'e) env \<Rightarrow> 'j content_part \<Rightarrow> 'j content_part" where
  "flatten_part ev it =
     (let t = (if part_type it = Some ''tool_result'' then Some ''text''
               else if part_type it = Some ''tool_use'' then Some ''text''
               else part_type it);
          msg = it\<lparr>part_type := t\<rparr>;
          text_or_empty = (case part_text it of None \<Rightarrow> [] | Some x \<Rightarrow> x)
      in if t = Some ''text'' then
           msg\<lparr>part_text :=
                 Some (case part_content it of
                         None \<Rightarrow> text_or_empty
                       | Some c \<Rightarrow> if truthy ev c then JSON_stringify ev c else text_or_empty),
               part_content := None\<rparr>
         else msg)"

text \<open>
  Lines 211 to 232. \<^verbatim>\<open>messages.map\<close> throws on an absent or \<^verbatim>\<open>null\<close> \<^verbatim>\<open>messages\<close> and on
  a value that is no array, and \<^verbatim>\<open>item.content\<close> throws on a \<^verbatim>\<open>null\<close> entry.
\<close>

definition flatten_message :: "('j, 'e) env \<Rightarrow> 'j message option \<Rightarrow> 'e js_error + 'j message" where
  "flatten_message ev entry =
     (case entry of
        None \<Rightarrow> Inl (TypeError_reading ''content'')
      | Some item \<Rightarrow>
          Inr (case msg_content item of
                 Parts parts \<Rightarrow> \<lparr>role = role item, msg_content = Parts (map (flatten_part ev) parts)\<rparr>
               | Scalar c \<Rightarrow> \<lparr>role = role item, msg_content = Scalar c\<rparr>
               | Text_content c \<Rightarrow> \<lparr>role = role item, msg_content = Text_content c\<rparr>))"

definition flatten_messages ::
  "('j, 'e) env \<Rightarrow> ('j message, 'j) maybe_array \<Rightarrow> 'e js_error + 'j message list" where
  "flatten_messages ev msgs =
     (case msgs of
        Undefined \<Rightarrow> Inl (TypeError_reading ''map'')
      | Null \<Rightarrow> Inl (TypeError_reading ''map'')
      | Not_array v \<Rightarrow> Inl (TypeError_not_a_function ''messages.map'')
      | Array items \<Rightarrow> map_items (flatten_message ev) items)"

text \<open>
  Lines 243 to 259. \<^verbatim>\<open>tokens > modelLimit\<close> is false when the limit is \<^verbatim>\<open>undefined\<close>.
\<close>

definition negotiate ::
  "bool \<Rightarrow> model_config \<Rightarrow> 'j request \<Rightarrow> 'j upstream_request \<Rightarrow> 'j upstream_request" where
  "negotiate isNewModel modelConfig req data =
     (if isNewModel then
        (let tokens = (if truthy_number (max_completion_tokens req) then max_completion_tokens req
                       else max_tokens req);
             modelLimit = config_max_tokens modelConfig;
             tokens1 = (case (tokens, modelLimit) of
                          (Some n, Some limit) \<Rightarrow> if n \<noteq> 0 \<and> n > limit then modelLimit else tokens
                        | _ \<Rightarrow> tokens)
         in data\<lparr>data_temperature := Some 1,
                 data_max_completion_tokens := (if truthy_number tokens1 then tokens1 else None)\<rparr>)
      else
        data\<lparr>data_temperature := temperature req,
             data_max_tokens := (if truthy_number (max_tokens req) then max_tokens req else None)\<rparr>)"

text \<open>
  Lines 261 to 273. A falsy \<^verbatim>\<open>tools\<close> is skipped; \<^verbatim>\<open>tools.map\<close> throws on a truthy value
  that is no array; in the callback \<^verbatim>\<open>item.name\<close> throws on a \<^verbatim>\<open>null\<close> entry and
  \<^verbatim>\<open>item.description.length\<close> on a tool without a description.
\<close>

definition map_tool :: "'j tool_definition option \<Rightarrow> 'e js_error + 'j function_schema" where
  "map_tool entry =
     (case entry of
        None \<Rightarrow> Inl (TypeError_reading ''name'')
      | Some item \<Rightarrow>
          (case description item of
             None \<Rightarrow> Inl (TypeError_reading ''length'')
           | Some d \<Rightarrow>
               Inr \<lparr>fn_name = name item,
                    fn_description = (if length d > 1024 then take 1024 d else d),
                    fn_parameters = input_schema item\<rparr>))"

definition map_tools ::
  "('j, 'e) env \<Rightarrow> ('j tool_definition, 'j) maybe_array \<Rightarrow>
     'e js_error + 'j function_schema list option" where
  "map_tools ev ts =
     (case ts of
        Undefined \<Rightarrow> Inr None
      | Null \<Rightarrow> Inr None
      | Not_array v \<Rightarrow> if truthy ev v then Inl (TypeError_not_a_function ''tools.map'') else Inr None
      | Array items \<Rightarrow>
          (case map_items map_tool items of Inl e \<Rightarrow> Inl e | Inr fs \<Rightarrow> Inr (Some fs)))"

text \<open>Lines 206 to 273: the request \<^verbatim>\<open>data\<close>, or the error thrown while building it.\<close>

definition build_request ::
  "('j, 'e) env \<Rightarrow> 'j request \<Rightarrow> string \<Rightarrow> bool \<Rightarrow> model_config \<Rightarrow>
     'e js_error + 'j upstream_request" where
  "build_request ev req chosenModel isNewModel modelConfig =
     (case systemMessages (system req) of
        Inl e \<Rightarrow> Inl e
      | Inr sys \<Rightarrow>
          (case flatten_messages ev (messages req) of
             Inl e \<Rightarrow> Inl e
           | Inr ms \<Rightarrow>
               (let data = negotiate isNewModel modelConfig req
                      \<lparr>data_model = chosenModel, data_messages = sys @ ms,
                       data_stream = True, data_temperature = None,
                       data_max_completion_tokens = None, data_max_tokens = None,
                       data_tools = None\<rparr>
                in case map_tools ev (tools req) of
                     Inl e \<Rightarrow> Inl e
                   | Inr fs \<Rightarrow> Inr (data\<lparr>data_tools := fs\<rparr>))))"

section \<open>Gateway Endpoint\<close>

text \<open>
  The Express response object, as far as the handler uses it. \<^verbatim>\<open>res.write\<close> sends the
  headers with the first chunk. \<^verbatim>\<open>res.status(400).json(...)\<close> sets the status code and
  sends the JSON body and ends the response; once the headers are sent it throws
  \<^verbatim>\<open>ERR_HTTP_HEADERS_SENT\<close> instead and nothing is sent. The JSON body
  \<^verbatim>\<open>{status: "error", message: error.message}\<close> is kept as the error it reports.
\<close>

record ('j, 'e) response =
  statusCode :: nat
  headers :: "(string \<times> string) list"
  headersSent :: bool
  body :: "'j sse_event list"
  json_body :: "'e js_error option"
  ended :: bool

definition response_init :: "('j, 'e) response" where
  "response_init =
     \<lparr>statusCode = 200, headers = [], headersSent = False, body = [], json_body = None,
      ended = False\<rparr>"

definition res_setHeader :: "string \<Rightarrow> string \<Rightarrow> ('j, 'e) response \<Rightarrow> ('j, 'e) response" where
  "res_setHeader k v res = res\<lparr>headers := headers res @ [(k, v)]\<rparr>"

definition res_write :: "'j sse_event list \<Rightarrow> ('j, 'e) response \<Rightarrow> ('j, 'e) response" where
  "res_write evs res = res\<lparr>headersSent := True, body := body res @ evs\<rparr>"

definition res_end :: "('j, 'e) response \<Rightarrow> ('j, 'e) response" where
  "res_end res = res\<lparr>headersSent := True, ended := True\<rparr>"

definition res_status_json ::
  "nat \<Rightarrow> 'e js_error \<Rightarrow> ('j, 'e) response \<Rightarrow> ('j, 'e) response \<times> 'e js_error option" where
  "res_status_json code err res =
     (if headersSent res then (res\<lparr>statusCode := code\<rparr>, Some ERR_HTTP_HEADERS_SENT)
      else
        (res\<lparr>statusCode := code, headers := headers res @ [(''Content-Type'', ''application/json'')],
             headersSent := True, json_body := Some err, ended := True\<rparr>,
         None))"

subsection \<open>File materialization\<close>

text \<open>
  \<^verbatim>\<open>parseFilesFromText\<close> (lines 157 to 177). Strings are lists of 8-bit characters, so of
  the characters of \<^verbatim>\<open>\s\<close> and of \<^verbatim>\<open>trim\<close> there are tab, line feed, vertical tab, form
  feed, carriage return, space and no-break space, and the box-drawing characters U+2500 to
  U+257F that the pattern skips are outside the type. The pattern is then
  \<^verbatim>\<open>\s*([\w/.\-]+\.tf)\<close>, searched from the left: the match is found at the first position
  from which the run of name characters holds \<^verbatim>\<open>.tf\<close> after at least one character, and the
  group is the longest prefix of that run that ends in \<^verbatim>\<open>.tf\<close> (the quantifier is greedy).
\<close>

definition is_space :: "char \<Rightarrow> bool" where
  "is_space c = (of_char c \<in> {9, 10, 11, 12, 13, 32, 160 :: nat})"

definition is_word :: "char \<Rightarrow> bool" where
  "is_word c =
     (let n = (of_char c :: nat)
      in (65 \<le> n \<and> n \<le> 90) \<or> (97 \<le> n \<and> n \<le> 122) \<or> (48 \<le> n \<and> n \<le> 57) \<or> n = 95)"

definition is_name_char :: "char \<Rightarrow> bool" where
  "is_name_char c = (is_word c \<or> c = CHR ''/'' \<or> c = CHR ''.'' \<or> c = CHR ''-'')"

text \<open>\<^verbatim>\<open>text.split("\n")\<close>.\<close>

fun split_lines :: "string \<Rightarrow> string list" where
  "split_lines [] = [[]]"
| "split_lines (c # cs) =
     (if c = CHR 0x0A then [] # split_lines cs
      else (case split_lines cs of [] \<Rightarrow> [[c]] | l # ls \<Rightarrow> (c # l) # ls))"

text \<open>The longest prefix of a run that ends in \<^verbatim>\<open>.tf\<close> and has a character before it.\<close>

fun tf_prefix :: "string \<Rightarrow> string option" where
  "tf_prefix [] = None"
| "tf_prefix (c # cs) =
     (case tf_prefix cs of
        Some p \<Rightarrow> Some (c # p)
      | None \<Rightarrow> if take 3 cs = ''.tf'' then Some (c # ''.tf'') else None)"

text \<open>\<^verbatim>\<open>line.match(...)\<close>: the group \<^verbatim>\<open>match[1]\<close>, or \<open>None\<close> for no match.\<close>

fun match_tf :: "string \<Rightarrow> string option" where
  "match_tf [] = None"
| "match_tf (c # cs) =
     (case tf_prefix (takeWhile is_name_char (c # cs)) of
        Some p \<Rightarrow> Some p
      | None \<Rightarrow> match_tf cs)"

text \<open>
  The object \<^verbatim>\<open>files\<close> as the list of its entries in insertion order, which is the order of
  \<^verbatim>\<open>Object.entries\<close> (no key is an array index: every key ends in \<^verbatim>\<open>.tf\<close>).
  \<^verbatim>\<open>files[k] = v\<close> keeps the place of a key that is already there; \<^verbatim>\<open>files[k] += s\<close> is
  only reached for a key that is there.
\<close>

fun set_property :: "(string \<times> string) list \<Rightarrow> string \<Rightarrow> string \<Rightarrow> (string \<times> string) list" where
  "set_property [] k v = [(k, v)]"
| "set_property ((k', v') # ps) k v =
     (if k' = k then (k, v) # ps else (k', v') # set_property ps k v)"

definition append_property ::
  "(string \<times> string) list \<Rightarrow> string \<Rightarrow> string \<Rightarrow> (string \<times> string) list" where
  "append_property ps k s = map (\<lambda>(k', v'). if k' = k then (k', v' @ s) else (k', v')) ps"

fun parse_lines ::
  "string list \<Rightarrow> (string \<times> string) list \<Rightarrow> string option \<Rightarrow> (string \<times> string) list" where
  "parse_lines [] files currentFile = files"
| "parse_lines (line # lines) files currentFile =
     (case match_tf line of
        Some f \<Rightarrow> parse_lines lines (set_property files f []) (Some f)
      | None \<Rightarrow>
          (case currentFile of
             None \<Rightarrow> parse_lines lines files None
           | Some f \<Rightarrow>
               if list_all is_space line then parse_lines lines files None
               else parse_lines lines (append_property files f (line @ [CHR 0x0A])) (Some f)))"

definition parseFilesFromText :: "string \<Rightarrow> (string \<times> string) list" where
  "parseFilesFromText t = parse_lines (split_lines t) [] None"

text \<open>
  Lines 410 to 414: the files are written in order; the first failure throws. A write is
  recorded with the file name relative to the working directory.
\<close>

fun write_files ::
  "('j, 'e) env \<Rightarrow> (string \<times> string) list \<Rightarrow> 'd process_state \<Rightarrow>
     ('e js_error + string list) \<times> 'd process_state" where
  "write_files ev [] s = (Inr [], s)"
| "write_files ev ((fileName, c) # rest) s =
     (case fs_writeFile ev fileName c of
        Some e \<Rightarrow> (Inl (Fs_error e), s)
      | None \<Rightarrow>
          (case write_files ev rest (s\<lparr>disk_writes := disk_writes s @ [(fileName, c)]\<rparr>) of
             (Inl e, s') \<Rightarrow> (Inl e, s')
           | (Inr createdFiles, s') \<Rightarrow> (Inr (fileName # createdFiles), s')))"

text \<open>Lines 423 to 438.\<close>

definition finish :: "'j stream_state \<Rightarrow> ('j, 'e) response \<Rightarrow> ('j, 'e) response" where
  "finish st res =
     res_end
       (res_write
          [Message_delta (if isToolUse st then Stop_tool_use else Stop_end_turn)
             (currentContentBlocks st),
           Message_stop] res)"

text \<open>
  Lines 278 to 438, from the completion to the end of the response. The result is the
  error thrown, if any, the response and the process state.
\<close>

definition stream_response ::
  "('j, 'e) env \<Rightarrow> string option \<Rightarrow> string \<Rightarrow> 'e completion \<Rightarrow> ('j, 'e) response \<Rightarrow>
     'd process_state \<Rightarrow> 'e js_error option \<times> ('j, 'e) response \<times> 'd process_state" where
  "stream_response ev mode chosenModel completion res s =
     (let res1 = res_setHeader ''Connection'' ''keep-alive''
                   (res_setHeader ''Cache-Control'' ''no-cache''
                      (res_setHeader ''Content-Type'' ''text/event-stream'' res));
          res2 = res_write [Message_start (Msg (clock s)) chosenModel] res1;
          (err, st) = consume (JSON_parse ev) mode (chunks completion)
                        (stream_state_init (clock s));
          res3 = res_write (events st) res2;
          s1 = s\<lparr>clock := time st\<rparr>
      in case err of
           Some e \<Rightarrow> (Some e, res3, s1)
         | None \<Rightarrow>
             (case stream_error completion of
                Some e \<Rightarrow> (Some (Upstream_error e), res3, s1)
              | None \<Rightarrow>
                  (let res4 = res_write [Content_block_stop (contentBlockIndex st)] res3
                   in if mode = Some ''file'' then
                        (case write_files ev (parseFilesFromText (fullOutput st)) s1 of
                           (Inl e, s2) \<Rightarrow> (Some e, res4, s2)
                         | (Inr createdFiles, s2) \<Rightarrow>
                             (None, finish st (res_write [Files_created createdFiles] res4), s2))
                      else (None, finish st res4, s1))))"

text \<open>The \<^verbatim>\<open>try\<close> block of the handler (lines 183 to 440).\<close>

definition try_block ::
  "('j, 'e) env \<Rightarrow> ('j upstream_request, 'e, 'e completion) upstream \<Rightarrow> 'j request \<Rightarrow>
     ('j, 'e) response \<Rightarrow> 'j upstream_request process_state \<Rightarrow>
     'e js_error option \<times> ('j, 'e) response \<times> 'j upstream_request process_state" where
  "try_block ev up req res s =
     (let chosenModel = choose_model (defaultModel ev) (model req);
          isNewModel = (chosenModel \<in> set allowedModels);
          (modelConfig, s1) = getModelConfig up chosenModel s
      in case build_request ev req chosenModel isNewModel modelConfig of
           Inl e \<Rightarrow> (Some e, res, s1)
         | Inr data \<Rightarrow>
             (case chatClient_create up data s1 of
                (Inl e, s2) \<Rightarrow> (Some (Upstream_error e), res, s2)
              | (Inr completion, s2) \<Rightarrow>
                  stream_response ev (output_mode req) chosenModel completion res s2))"

text \<open>
  The handler: the \<^verbatim>\<open>try\<close> block and the \<^verbatim>\<open>catch\<close> block (lines 441 to 447). The result is
  the response, the error that escapes the handler (the rejection of its promise), if any,
  and the process state.
\<close>

definition handler ::
  "('j, 'e) env \<Rightarrow> ('j upstream_request, 'e, 'e completion) upstream \<Rightarrow> 'j request \<Rightarrow>
     'j upstream_request process_state \<Rightarrow>
     ('j, 'e) response \<times> 'e js_error option \<times> 'j upstream_request process_state" where
  "handler ev up req s =
     (case try_block ev up req response_init s of
        (None, res, s') \<Rightarrow> (res, None, s')
      | (Some error, res, s') \<Rightarrow>
          (let (res', uncaught) = res_status_json 400 error res in (res', uncaught, s')))"

text \<open>
  The state of the loop after the deltas \<open>ds\<close> of a stream that begins at time \<open>t\<close>, and the
  events the handler sends for that stream when the upstream call returned at the clock
  of \<open>s\<close>.
\<close>

definition final_state ::
  "('j, 'e) env \<Rightarrow> string option \<Rightarrow> (nat \<times> delta) list \<Rightarrow> nat \<Rightarrow> 'j stream_state" where
  "final_state ev mode ds t = after_deltas (JSON_parse ev) mode ds (stream_state_init t)"

definition sse_events ::
  "('j, 'e) env \<Rightarrow> string option \<Rightarrow> string \<Rightarrow> (nat \<times> delta) list \<Rightarrow> 'd process_state \<Rightarrow>
     'j sse_event list" where
  "sse_events ev mode chosenModel ds s =
     body (fst (snd (stream_response ev mode chosenModel (completion_of ds)
                       (response_init :: ('j, 'e) response) s)))"

section \<open>Concrete inputs\<close>

text \<open>
  The environment of the examples. A JSON value is represented by its text, so
  \<^verbatim>\<open>JSON.stringify\<close> is the identity; \<^verbatim>\<open>JSON.parse\<close> is given on the one complete text the
  examples use (every other text they accumulate is a proper prefix of it or no JSON at
  all). No write fails.
\<close>

definition env_example :: "(string, string) env" where
  \<open>env_example =
     \<lparr>defaultModel = ''o3-mini'',
      JSON_parse = (\<lambda>t. if t = ''{"x":1}'' then Some t else None),
      JSON_stringify = (\<lambda>j. j),
      truthy = (\<lambda>j. j \<noteq> ''null'' \<and> j \<noteq> ''false'' \<and> j \<noteq> ''0'' \<and> j \<noteq> ''""''),
      fs_writeFile = (\<lambda>p c. None)\<rparr>\<close>

definition text_chunk :: "string \<Rightarrow> chunk" where
  "text_chunk t = \<lparr>choices = [\<lparr>tool_calls = [], content = Some t\<rparr>]\<rparr>"

definition tool_chunk :: "string option \<Rightarrow> string option \<Rightarrow> chunk" where
  "tool_chunk n a = \<lparr>choices = [\<lparr>tool_calls = [\<lparr>call_name = n, call_arguments = a\<rparr>], content = None\<rparr>]\<rparr>"

text \<open>
  An upstream that answers every metadata lookup and streams a given completion for every
  chat request; one that refuses every chat request.
\<close>

definition upstream_streaming ::
  "string completion \<Rightarrow> (string upstream_request, string, string completion) upstream" where
  "upstream_streaming c =
     \<lparr>models_retrieve = (\<lambda>k n. (True, 20)), chat_create = (\<lambda>k d. (Inr c, 50))\<rparr>"

definition upstream_down :: "('d, string, 'c) upstream" where
  "upstream_down =
     \<lparr>models_retrieve = (\<lambda>k n. (True, 20)), chat_create = (\<lambda>k d. (Inl ''ECONNRESET'', 50))\<rparr>"

text \<open>The scenario of the specification: text, a tool call with complete arguments, text.\<close>

definition scenario :: "string completion" where
  \<open>scenario =
     \<lparr>chunks = [(10, text_chunk ''Hello''),
                (10, tool_chunk (Some ''run'') (Some ''{"x":1}'')),
                (10, text_chunk '' world'')],
      stream_error = None\<rparr>\<close>

definition request_example :: "string request" where
  \<open>request_example =
     \<lparr>model = Some ''o3-mini'', max_tokens = None, max_completion_tokens = None,
      messages = Array [Some \<lparr>role = Some ''user'', msg_content = Scalar ''"list files"''\<rparr>],
      system = Undefined, temperature = None, tools = Undefined, output_mode = None\<rparr>\<close>

text \<open>
  The process at time \<open>t\<close>, after three chat calls with the request \<open>d\<close> have failed and the
  breaker has tripped at time 3150.
\<close>

definition process_tripped :: "nat \<Rightarrow> 'd \<Rightarrow> 'd process_state" where
  "process_tripped t d =
     \<lparr>modelConfigCache = modelConfigCache_init,
      circuitBreaker = \<lparr>failureCount = 3, threshold = 3, open = True, openUntil = 33150\<rparr>,
      clock = t,
      upstream_calls = [Chat_completions_create d, Chat_completions_create d, Chat_completions_create d],
      disk_writes = []\<rparr>"

text \<open>A tool call with complete arguments followed by text; text followed by that tool call.\<close>

definition tool_then_text :: "(nat \<times> delta) list" where
  \<open>tool_then_text =
     [(10, \<lparr>tool_calls = [\<lparr>call_name = Some ''run'', call_arguments = Some ''{"x":1}''\<rparr>],
            content = None\<rparr>),
      (10, \<lparr>tool_calls = [], content = Some '' world''\<rparr>)]\<close>

definition text_then_tool :: "string completion" where
  \<open>text_then_tool =
     \<lparr>chunks = [(10, text_chunk ''Hello''),
                (10, tool_chunk (Some ''run'') (Some ''{"x":1}''))],
      stream_error = None\<rparr>\<close>

text \<open>File mode: an output that names one Terraform file, in two deltas.\<close>

definition file_output :: string where
  "file_output = ''main.tf'' @ [CHR 0x0A] @ ''resource {}'' @ [CHR 0x0A]"

definition file_deltas :: "(nat \<times> delta) list" where
  "file_deltas =
     [(10, \<lparr>tool_calls = [], content = Some (''main.tf'' @ [CHR 0x0A])\<rparr>),
      (10, \<lparr>tool_calls = [], content = Some (''resource {}'' @ [CHR 0x0A])\<rparr>)]"

text \<open>A request for \<^verbatim>\<open>gpt-4\<close> with a temperature and a token count above the model's limit.\<close>

definition request_gpt4 :: "string request" where
  "request_gpt4 = request_example\<lparr>model := Some ''gpt-4'', temperature := Some (1 / 5), max_tokens := Some 5000\<rparr>"

text \<open>A request whose only tool has no description.\<close>

definition request_tool_without_description :: "string request" where
  \<open>request_tool_without_description =
     request_example
       \<lparr>tools := Array [Some \<lparr>name = Some ''Bash'', description = None,
                              input_schema = Some ''{"type":"object"}''\<rparr>]\<rparr>\<close>

text \<open>The same request with \<^verbatim>\<open>system\<close> given as a string.\<close>

definition request_system_string :: "string request" where
  \<open>request_system_string =
     request_tool_without_description\<lparr>system := Not_array ''"You are a helpful assistant."''\<rparr>\<close>

text \<open>The upstream request built from \<open>request_example\<close>.\<close>

definition data_example :: "string upstream_request" where
  \<open>data_example =
     \<lparr>data_model = ''o3-mini'',
      data_messages =
        [defaultSystemMessage, \<lparr>role = Some ''user'', msg_content = Scalar ''"list files"''\<rparr>],
      data_stream = True, data_temperature = Some 1, data_max_completion_tokens = None,
      data_max_tokens = None, data_tools = None\<rparr>\<close>


section \<open>Properties of the Model Capability Resolver\<close>

lemma getModelConfig_hit:
  "modelConfigCache s m = Some c \<Longrightarrow> getModelConfig up m s = (c, s)"
  by (simp add: getModelConfig_def)

lemma getModelConfig_stores:
  "modelConfigCache (snd (getModelConfig up m s)) m = Some (fst (getModelConfig up m s))"
  by (simp add: getModelConfig_def chatClient_models_retrieve_def Let_def split: option.splits prod.splits)

lemma getModelConfig_keeps:
  "modelConfigCache s m = Some c \<Longrightarrow> modelConfigCache (snd (getModelConfig up n s)) m = Some c"
  by (auto simp add: getModelConfig_def chatClient_models_retrieve_def Let_def split: option.splits prod.splits)

lemma getModelConfig_lookups_le:
  "lookups_of m (snd (getModelConfig up m s)) \<le> lookups_of m s + 1"
  by (simp add: getModelConfig_def chatClient_models_retrieve_def lookups_of_def Let_def split: option.splits prod.splits)

lemma getModelConfig_lookups_keep:
  "modelConfigCache s m = Some c \<Longrightarrow> lookups_of m (snd (getModelConfig up n s)) = lookups_of m s"
  by (auto simp add: getModelConfig_def chatClient_models_retrieve_def lookups_of_def Let_def split: option.splits prod.splits)

lemma getModelConfig_each_keeps:
  "modelConfigCache s m = Some c \<Longrightarrow>
     modelConfigCache (getModelConfig_each up ns s) m = Some c \<and>
     lookups_of m (getModelConfig_each up ns s) = lookups_of m s"
proof (induction ns arbitrary: s)
  case Nil
  then show ?case by simp
next
  case (Cons n ns)
  from Cons.prems have k: "modelConfigCache (snd (getModelConfig up n s)) m = Some c"
    by (rule getModelConfig_keeps)
  from Cons.IH [OF k] getModelConfig_lookups_keep [OF Cons.prems, of up n]
  show ?case by simp
qed

text \<open>
  Claim C9. Resolve a model name \<open>m\<close> from any process state and any upstream (the lookup
  may succeed or fail), then resolve any list \<open>ns\<close> of names, then resolve \<open>m\<close> again. The
  second resolution returns the value of the first, leaves the state as it found it (it
  issues no call), the value is still in the cache, and over the whole run at most one
  \<^verbatim>\<open>models.retrieve\<close> call was issued for \<open>m\<close>.
\<close>

theorem getModelConfig_idempotent:
  "(let (c1, s1) = getModelConfig up m s;
        s2 = getModelConfig_each up ns s1;
        (c2, s3) = getModelConfig up m s2
    in c2 = c1 \<and> s3 = s2 \<and> modelConfigCache s3 m = Some c1 \<and>
       lookups_of m s3 \<le> lookups_of m s + 1)"
proof -
  obtain c1 s1 where r1: "getModelConfig up m s = (c1, s1)"
    by (cases "getModelConfig up m s")
  have st: "modelConfigCache s1 m = Some c1"
    using getModelConfig_stores [of up m s] r1 by simp
  let ?s2 = "getModelConfig_each up ns s1"
  have k: "modelConfigCache ?s2 m = Some c1" "lookups_of m ?s2 = lookups_of m s1"
    using getModelConfig_each_keeps [OF st, of up ns] by simp_all
  have r2: "getModelConfig up m ?s2 = (c1, ?s2)"
    using k(1) by (rule getModelConfig_hit)
  have "lookups_of m s1 \<le> lookups_of m s + 1"
    using getModelConfig_lookups_le [of m up s] r1 by simp
  with r1 r2 k show ?thesis by simp
qed

section \<open>Properties of the Resilient Invoker\<close>

declare retry_loop.simps [simp del]

lemma retry_loop_success:
  assumes "attempt \<le> maxAttempts"
    and "chat_create up (length (upstream_calls s)) data = (Inr c, ms)"
  shows "retry_loop up data attempt delay s =
           (Inr (Some c),
            s\<lparr>clock := clock s + ms,
              upstream_calls := upstream_calls s @ [Chat_completions_create data],
              circuitBreaker := (circuitBreaker s)\<lparr>failureCount := 0\<rparr>\<rparr>)"
  using assms by (subst retry_loop.simps) (simp add: chatClient_create_def)

lemma retry_loop_trip:
  assumes "attempt \<le> maxAttempts"
    and "chat_create up (length (upstream_calls s)) data = (Inl e, ms)"
    and "threshold (circuitBreaker s) \<le> failureCount (circuitBreaker s) + 1"
  shows "retry_loop up data attempt delay s =
           (Inl (Upstream_error e),
            s\<lparr>clock := clock s + ms,
              upstream_calls := upstream_calls s @ [Chat_completions_create data],
              circuitBreaker := (circuitBreaker s)
                \<lparr>failureCount := failureCount (circuitBreaker s) + 1, open := True,
                 openUntil := clock s + ms + 30000\<rparr>\<rparr>)"
  using assms by (subst retry_loop.simps) (simp add: chatClient_create_def Let_def)

lemma retry_loop_retry:
  assumes "attempt < maxAttempts"
    and "chat_create up (length (upstream_calls s)) data = (Inl e, ms)"
    and "failureCount (circuitBreaker s) + 1 < threshold (circuitBreaker s)"
  shows "retry_loop up data attempt delay s =
           retry_loop up data (attempt + 1) (delay * 2)
             (s\<lparr>clock := clock s + ms,
                upstream_calls := upstream_calls s @ [Chat_completions_create data],
                circuitBreaker := (circuitBreaker s)
                  \<lparr>failureCount := failureCount (circuitBreaker s) + 1\<rparr>,
                clock := clock s + ms + delay\<rparr>)"
  using assms by (subst retry_loop.simps) (simp add: chatClient_create_def Let_def)

text \<open>\<open>k\<close> failures in a row that bring the count to the threshold.\<close>

lemma retry_loop_failures:
  assumes "0 < k" "attempt + k \<le> Suc maxAttempts"
    and "failureCount (circuitBreaker s) + k = threshold (circuitBreaker s)"
    and "\<forall>i<k. \<exists>e. fst (chat_create up (length (upstream_calls s) + i) data) = Inl e"
  shows "\<exists>e s'. retry_loop up data attempt delay s = (Inl (Upstream_error e), s') \<and>
           fst (chat_create up (length (upstream_calls s) + (k - 1)) data) = Inl e \<and>
           open (circuitBreaker s') \<and> openUntil (circuitBreaker s') = clock s' + 30000 \<and>
           failureCount (circuitBreaker s') = threshold (circuitBreaker s) \<and>
           threshold (circuitBreaker s') = threshold (circuitBreaker s) \<and>
           upstream_calls s' = upstream_calls s @ replicate k (Chat_completions_create data)"
  using assms
proof (induction k arbitrary: attempt delay s)
  case 0
  then show ?case by simp
next
  case (Suc k)
  from Suc.prems(4) obtain e where "fst (chat_create up (length (upstream_calls s) + 0) data) = Inl e"
    by blast
  then obtain ms where call: "chat_create up (length (upstream_calls s)) data = (Inl e, ms)"
    by (cases "chat_create up (length (upstream_calls s)) data") simp
  show ?case
  proof (cases k)
    case 0
    with Suc.prems have a: "attempt \<le> maxAttempts"
      and t: "threshold (circuitBreaker s) \<le> failureCount (circuitBreaker s) + 1"
      by simp_all
    show ?thesis
      using retry_loop_trip [OF a call t, of delay] call Suc.prems(3) 0 by simp
  next
    case (Suc j)
    let ?s1 = "s\<lparr>clock := clock s + ms,
                upstream_calls := upstream_calls s @ [Chat_completions_create data],
                circuitBreaker := (circuitBreaker s)
                  \<lparr>failureCount := failureCount (circuitBreaker s) + 1\<rparr>,
                clock := clock s + ms + delay\<rparr>"
    from Suc Suc.prems have a: "attempt < maxAttempts"
      and t: "failureCount (circuitBreaker s) + 1 < threshold (circuitBreaker s)"
      by simp_all
    have step: "retry_loop up data attempt delay s = retry_loop up data (attempt + 1) (delay * 2) ?s1"
      by (rule retry_loop_retry [OF a call t])
    have p1: "0 < k" using Suc by simp
    have p2: "attempt + 1 + k \<le> Suc maxAttempts" using Suc.prems(2) by simp
    have p3: "failureCount (circuitBreaker ?s1) + k = threshold (circuitBreaker ?s1)"
      using Suc.prems(3) by simp
    have p4: "\<forall>i<k. \<exists>e. fst (chat_create up (length (upstream_calls ?s1) + i) data) = Inl e"
    proof (intro allI impI)
      fix i assume "i < k"
      then have "Suc i < Suc k" by simp
      with Suc.prems(4) have "\<exists>e. fst (chat_create up (length (upstream_calls s) + Suc i) data) = Inl e"
        by blast
      then show "\<exists>e. fst (chat_create up (length (upstream_calls ?s1) + i) data) = Inl e"
        by simp
    qed
    from Suc.IH [OF p1 p2 p3 p4, of "delay * 2"] obtain e' s' where
      r: "retry_loop up data (attempt + 1) (delay * 2) ?s1 = (Inl (Upstream_error e'), s')"
      and rest: "fst (chat_create up (length (upstream_calls ?s1) + (k - 1)) data) = Inl e'"
        "open (circuitBreaker s')" "openUntil (circuitBreaker s') = clock s' + 30000"
        "failureCount (circuitBreaker s') = threshold (circuitBreaker ?s1)"
        "threshold (circuitBreaker s') = threshold (circuitBreaker ?s1)"
        "upstream_calls s' = upstream_calls ?s1 @ replicate k (Chat_completions_create data)"
      by blast
    have idx: "length (upstream_calls ?s1) + (k - 1) = length (upstream_calls s) + (Suc k - 1)"
      using p1 by simp
    show ?thesis
      using step r rest idx by (simp add: replicate_app_Cons_same)
  qed
qed

lemma retry_loop_first_call:
  "attempt \<le> maxAttempts \<Longrightarrow>
     \<exists>rest. upstream_calls (snd (retry_loop up data attempt delay s)) =
           upstream_calls s @ Chat_completions_create data # rest"
proof (induction up data attempt delay s rule: retry_loop.induct)
  case (1 up data attempt delay s)
  obtain r ms where call: "chat_create up (length (upstream_calls s)) data = (r, ms)"
    by (cases "chat_create up (length (upstream_calls s)) data")
  show ?case
  proof (cases r)
    case (Inr c)
    with call "1.prems" show ?thesis
      by (simp add: retry_loop_success)
  next
    case (Inl e)
    note call' = call [unfolded Inl]
    consider (trip) "threshold (circuitBreaker s) \<le> failureCount (circuitBreaker s) + 1"
      | (last) "failureCount (circuitBreaker s) + 1 < threshold (circuitBreaker s)" "attempt = maxAttempts"
      | (retry) "failureCount (circuitBreaker s) + 1 < threshold (circuitBreaker s)" "attempt < maxAttempts"
      using "1.prems" by linarith
    then show ?thesis
    proof cases
      case trip
      with call' "1.prems" show ?thesis by (simp add: retry_loop_trip)
    next
      case last
      with call' show ?thesis by (subst retry_loop.simps) (simp add: chatClient_create_def Let_def)
    next
      case retry
      let ?s1 = "s\<lparr>clock := clock s + ms,
                upstream_calls := upstream_calls s @ [Chat_completions_create data]\<rparr>"
      let ?cb = "(circuitBreaker ?s1)\<lparr>failureCount := failureCount (circuitBreaker ?s1) + 1\<rparr>"
      have c1: "chatClient_create up data s = (Inl e, ?s1)"
        using call' by (simp add: chatClient_create_def)
      have "\<exists>rest. upstream_calls (snd (retry_loop up data (attempt + 1) (delay * 2)
                (?s1\<lparr>circuitBreaker := ?cb, clock := clock ?s1 + delay\<rparr>))) =
              upstream_calls (?s1\<lparr>circuitBreaker := ?cb, clock := clock ?s1 + delay\<rparr>) @
                Chat_completions_create data # rest"
        using retry "1.prems" c1
        by (intro "1.IH" [where x = "(Inl e, ?s1)" and xa = "Inl e" and y = ?s1]) simp_all
      then show ?thesis
        using retry c1 by (subst retry_loop.simps) (auto simp add: Let_def)
    qed
  qed
qed


text \<open>
  Claim C5. With the threshold 3 of the source: (1) an invocation that finds the breaker
  closed with \<open>c < 3\<close> failures counted, and whose next \<open>3 - c\<close> upstream calls fail, throws
  the error of the last of them, leaves the breaker open with \<open>openUntil\<close> 30000 ms after
  the time of that failure, and has made exactly those \<open>3 - c\<close> calls; (2) an invocation
  that starts while the breaker is open and the clock is before \<open>openUntil\<close> throws the
  circuit-open error and changes nothing, so it makes no upstream call; (3) an invocation
  that starts with the breaker open and \<open>openUntil\<close> reached behaves as one that starts with
  the breaker closed and no failure counted, and its first step is an upstream call.
\<close>

theorem circuit_breaker_behaviour:
  assumes thr: "threshold (circuitBreaker s) = 3"
  shows "(\<not> open (circuitBreaker s) \<and> failureCount (circuitBreaker s) < 3 \<and>
          (\<forall>i < 3 - failureCount (circuitBreaker s).
             \<exists>e. fst (chat_create up (length (upstream_calls s) + i) data) = Inl e) \<longrightarrow>
          (\<exists>e s'. getCompletionWithRetry up data s = (Inl (Upstream_error e), s') \<and>
             fst (chat_create up (length (upstream_calls s) + (2 - failureCount (circuitBreaker s))) data) = Inl e \<and>
             open (circuitBreaker s') \<and> openUntil (circuitBreaker s') = clock s' + 30000 \<and>
             upstream_calls s' =
               upstream_calls s @ replicate (3 - failureCount (circuitBreaker s)) (Chat_completions_create data))) \<and>
         (open (circuitBreaker s) \<and> clock s < openUntil (circuitBreaker s) \<longrightarrow>
            getCompletionWithRetry up data s =
              (Inl (Error_message ''Circuit breaker open, try later.''), s)) \<and>
         (open (circuitBreaker s) \<and> openUntil (circuitBreaker s) \<le> clock s \<longrightarrow>
            getCompletionWithRetry up data s =
              getCompletionWithRetry up data
                (s\<lparr>circuitBreaker := (circuitBreaker s)\<lparr>open := False, failureCount := 0\<rparr>\<rparr>) \<and>
            (\<exists>rest. upstream_calls (snd (getCompletionWithRetry up data s)) =
               upstream_calls s @ Chat_completions_create data # rest))"
proof (intro conjI impI)
  assume a: "\<not> open (circuitBreaker s) \<and> failureCount (circuitBreaker s) < 3 \<and>
          (\<forall>i < 3 - failureCount (circuitBreaker s).
             \<exists>e. fst (chat_create up (length (upstream_calls s) + i) data) = Inl e)"
  let ?k = "3 - failureCount (circuitBreaker s)"
  have k: "0 < ?k" "1 + ?k \<le> Suc maxAttempts"
    "failureCount (circuitBreaker s) + ?k = threshold (circuitBreaker s)"
    using a thr by (simp_all add: maxAttempts_def)
  from a have f: "\<forall>i < ?k. \<exists>e. fst (chat_create up (length (upstream_calls s) + i) data) = Inl e"
    by simp
  have run: "getCompletionWithRetry up data s = retry_loop up data 1 1000 s"
    using a by (simp add: getCompletionWithRetry_def)
  have idx: "?k - 1 = 2 - failureCount (circuitBreaker s)"
    by simp
  from retry_loop_failures [OF k f, of 1000]
  show "\<exists>e s'. getCompletionWithRetry up data s = (Inl (Upstream_error e), s') \<and>
             fst (chat_create up (length (upstream_calls s) + (2 - failureCount (circuitBreaker s))) data) = Inl e \<and>
             open (circuitBreaker s') \<and> openUntil (circuitBreaker s') = clock s' + 30000 \<and>
             upstream_calls s' =
               upstream_calls s @ replicate (3 - failureCount (circuitBreaker s)) (Chat_completions_create data)"
    unfolding run idx by blast
next
  assume "open (circuitBreaker s) \<and> clock s < openUntil (circuitBreaker s)"
  then show "getCompletionWithRetry up data s =
              (Inl (Error_message ''Circuit breaker open, try later.''), s)"
    by (simp add: getCompletionWithRetry_def)
next
  assume c: "open (circuitBreaker s) \<and> openUntil (circuitBreaker s) \<le> clock s"
  then show "getCompletionWithRetry up data s =
              getCompletionWithRetry up data
                (s\<lparr>circuitBreaker := (circuitBreaker s)\<lparr>open := False, failureCount := 0\<rparr>\<rparr>)"
    by (simp add: getCompletionWithRetry_def)
next
  assume c: "open (circuitBreaker s) \<and> openUntil (circuitBreaker s) \<le> clock s"
  then have "getCompletionWithRetry up data s =
      retry_loop up data 1 1000 (s\<lparr>circuitBreaker := (circuitBreaker s)\<lparr>open := False, failureCount := 0\<rparr>\<rparr>)"
    by (simp add: getCompletionWithRetry_def)
  moreover have "(1::nat) \<le> maxAttempts"
    by (simp add: maxAttempts_def)
  ultimately show "\<exists>rest. upstream_calls (snd (getCompletionWithRetry up data s)) =
               upstream_calls s @ Chat_completions_create data # rest"
    using retry_loop_first_call [of 1 up data 1000
        "s\<lparr>circuitBreaker := (circuitBreaker s)\<lparr>open := False, failureCount := 0\<rparr>\<rparr>"]
    by simp
qed


theorem circuit_breaker_behaviour_witness:
  "(\<exists>e s'. getCompletionWithRetry upstream_down () (process_init 0) = (Inl (Upstream_error e), s') \<and>
      open (circuitBreaker s') \<and> openUntil (circuitBreaker s') = clock s' + 30000 \<and>
      upstream_calls s' = replicate 3 (Chat_completions_create ())) \<and>
   getCompletionWithRetry upstream_down () (process_tripped 3150 ()) =
     (Inl (Error_message ''Circuit breaker open, try later.''), process_tripped 3150 ()) \<and>
   (\<exists>rest. upstream_calls (snd (getCompletionWithRetry upstream_down () (process_tripped 33150 ()))) =
      upstream_calls (process_tripped 33150 ()) @ Chat_completions_create () # rest)"
proof -
  let ?s = "process_init 0 :: unit process_state"
  have t: "threshold (circuitBreaker ?s) = 3"
    by (simp add: process_init_def circuitBreaker_init_def)
  have h: "\<not> open (circuitBreaker ?s) \<and> failureCount (circuitBreaker ?s) < 3 \<and>
          (\<forall>i < 3 - failureCount (circuitBreaker ?s).
             \<exists>e. fst (chat_create upstream_down (length (upstream_calls ?s) + i) ()) = Inl e)"
    by (simp add: process_init_def circuitBreaker_init_def upstream_down_def)
  have a: "\<exists>e s'. getCompletionWithRetry upstream_down () ?s = (Inl (Upstream_error e), s') \<and>
      open (circuitBreaker s') \<and> openUntil (circuitBreaker s') = clock s' + 30000 \<and>
      upstream_calls s' = replicate 3 (Chat_completions_create ())"
    using circuit_breaker_behaviour [OF t, of upstream_down "()"] h
    by (simp add: process_init_def circuitBreaker_init_def) blast
  have t': "threshold (circuitBreaker (process_tripped n ())) = 3" for n
    by (simp add: process_tripped_def)
  have hb: "open (circuitBreaker (process_tripped 3150 ())) \<and>
      clock (process_tripped 3150 ()) < openUntil (circuitBreaker (process_tripped 3150 ()))"
    by (simp add: process_tripped_def)
  have b: "getCompletionWithRetry upstream_down () (process_tripped 3150 ()) =
     (Inl (Error_message ''Circuit breaker open, try later.''), process_tripped 3150 ())"
    using circuit_breaker_behaviour [OF t', of 3150 upstream_down "()"] hb by blast
  have hc: "open (circuitBreaker (process_tripped 33150 ())) \<and>
      openUntil (circuitBreaker (process_tripped 33150 ())) \<le> clock (process_tripped 33150 ())"
    by (simp add: process_tripped_def)
  have c: "\<exists>rest. upstream_calls (snd (getCompletionWithRetry upstream_down () (process_tripped 33150 ()))) =
      upstream_calls (process_tripped 33150 ()) @ Chat_completions_create () # rest"
    using circuit_breaker_behaviour [OF t', of 33150 upstream_down "()"] hc by blast
  from a b c show ?thesis by blast
qed

section \<open>Properties of the Stream Translator\<close>

lemma count_events_append [simp]:
  "count_events p (xs @ ys) = count_events p xs + count_events p ys"
  by (simp add: count_events_def)

lemma count_events_Nil [simp]: "count_events p [] = 0"
  by (simp add: count_events_def)

lemma count_events_Cons [simp]:
  "count_events p (x # xs) = (if p x then 1 else 0) + count_events p xs"
  by (simp add: count_events_def)


subsection \<open>What one delta does\<close>

lemma on_tool_call_events:
  "events (on_tool_call P tc st) =
     events st
     @ (if isToolUse st then []
        else [Content_block_start (contentBlockIndex st) (tool_use_block (time st) (call_name tc))])
     @ (case call_arguments tc of
          None \<Rightarrow> []
        | Some a \<Rightarrow> if a = [] then [] else [Content_block_delta (contentBlockIndex st) (Input_json_delta a)])"
  by (simp add: on_tool_call_def res_write_event_def Let_def split: option.splits)

lemma on_tool_call_fields:
  "isToolUse (on_tool_call P tc st)"
  "hasStartedTextBlock (on_tool_call P tc st) = hasStartedTextBlock st"
  "contentBlockIndex (on_tool_call P tc st) = contentBlockIndex st"
  "fullOutput (on_tool_call P tc st) = fullOutput st"
  "time (on_tool_call P tc st) = time st"
  by (simp_all add: on_tool_call_def res_write_event_def Let_def split: option.splits)

lemma on_content_events:
  "events (on_content mode t st) =
     events st
     @ (if isToolUse st then [Content_block_stop (contentBlockIndex st)]
        else (if hasStartedTextBlock st then []
              else [Content_block_start (contentBlockIndex st) text_block])
             @ (if mode = Some ''file'' then []
                else [Content_block_delta (contentBlockIndex st) (Text_delta t)]))"
  by (simp add: on_content_def res_write_event_def Let_def)

lemma on_content_fields:
  "isToolUse (on_content mode t st) = False"
  "hasStartedTextBlock (on_content mode t st) = (\<not> isToolUse st)"
  "contentBlockIndex (on_content mode t st) = contentBlockIndex st + (if isToolUse st then 1 else 0)"
  "fullOutput (on_content mode t st) = fullOutput st @ (if mode = Some ''file'' then t else [])"
  "time (on_content mode t st) = time st"
  by (simp_all add: on_content_def res_write_event_def Let_def)

text \<open>The three kinds of delta.\<close>

lemma on_delta_cases:
  obtains (tool) tc rest where "tool_calls d = tc # rest" "on_delta P mode d st = on_tool_call P tc st"
  | (textual) t where "tool_calls d = []" "content d = Some t" "t \<noteq> []"
      "on_delta P mode d st = on_content mode t st"
  | (idle) "tool_calls d = []" "content d = None \<or> content d = Some []" "on_delta P mode d st = st"
proof (cases "tool_calls d")
  case Nil
  show ?thesis
  proof (cases "content d")
    case None
    with Nil show ?thesis by (intro idle) (simp_all add: on_delta_def)
  next
    case (Some t)
    show ?thesis
    proof (cases "t = []")
      case True
      with Nil Some show ?thesis by (intro idle) (simp_all add: on_delta_def)
    next
      case False
      with Nil Some show ?thesis by (intro textual [of t]) (simp_all add: on_delta_def)
    qed
  qed
next
  case (Cons tc rest)
  then show ?thesis by (intro tool [of tc rest]) (simp_all add: on_delta_def)
qed

lemmas on_delta_effects = on_tool_call_events on_tool_call_fields on_content_events on_content_fields

lemma consume_completion:
  "consume P mode (chunks (completion_of ds)) st = (None, after_deltas P mode ds st)"
  by (induction ds arbitrary: st) (auto simp: completion_of_def)

lemma on_delta_index:
  "contentBlockIndex (on_delta P mode d st) + count_events is_content_block_stop (events st) =
     contentBlockIndex st + count_events is_content_block_stop (events (on_delta P mode d st))"
  by (cases rule: on_delta_cases [of d P mode st]) (simp_all add: on_delta_effects split: option.splits)

lemma on_delta_time: "time (on_delta P mode d st) = time st"
  by (cases rule: on_delta_cases [of d P mode st]) (simp_all add: on_delta_effects)

lemma on_delta_open_le:
  "count_events is_content_block_stop (events st) + (if isToolUse st then 1 else 0)
     \<le> count_events is_content_block_start (events st) \<Longrightarrow>
   count_events is_content_block_stop (events (on_delta P mode d st)) +
     (if isToolUse (on_delta P mode d st) then 1 else 0)
     \<le> count_events is_content_block_start (events (on_delta P mode d st))"
  by (cases rule: on_delta_cases [of d P mode st])
     (simp_all add: on_delta_effects split: option.splits if_splits)

lemma on_delta_exact:
  "\<not> (tool_calls d \<noteq> [] \<and> hasStartedTextBlock st \<and> \<not> isToolUse st) \<Longrightarrow>
   \<not> (isToolUse st \<and> hasStartedTextBlock st) \<Longrightarrow>
   count_events is_content_block_start (events st) =
     count_events is_content_block_stop (events st) + (if isToolUse st \<or> hasStartedTextBlock st then 1 else 0) \<Longrightarrow>
   \<not> (isToolUse (on_delta P mode d st) \<and> hasStartedTextBlock (on_delta P mode d st)) \<and>
   count_events is_content_block_start (events (on_delta P mode d st)) =
     count_events is_content_block_stop (events (on_delta P mode d st)) +
       (if isToolUse (on_delta P mode d st) \<or> hasStartedTextBlock (on_delta P mode d st) then 1 else 0)"
  by (cases rule: on_delta_cases [of d P mode st])
     (auto simp add: on_delta_effects split: option.splits if_splits)

lemma on_delta_events_kind:
  "list_all is_content_block_event (events st) \<Longrightarrow>
   list_all is_content_block_event (events (on_delta P mode d st))"
  by (cases rule: on_delta_cases [of d P mode st])
     (simp_all add: on_delta_effects split: option.splits)

lemma on_delta_fullOutput:
  "fullOutput (on_delta P (Some ''file'') d st) =
     fullOutput st @ (if tool_calls d = [] then (case content d of None \<Rightarrow> [] | Some t \<Rightarrow> t) else [])"
  by (cases rule: on_delta_cases [of d P "Some ''file''" st])
     (auto simp add: on_delta_effects split: option.splits)

text \<open>While a tool-use block is open no block is started: the next text closes it first.\<close>

lemma on_delta_in_tool_use:
  "isToolUse st \<Longrightarrow>
     count_events is_content_block_start (events (on_delta P mode d st)) =
       count_events is_content_block_start (events st)"
  by (cases rule: on_delta_cases [of d P mode st])
     (simp_all add: on_delta_effects split: option.splits)

subsection \<open>The loop\<close>

lemma after_deltas_index:
  "contentBlockIndex (after_deltas P mode ds st) + count_events is_content_block_stop (events st) =
     contentBlockIndex st + count_events is_content_block_stop (events (after_deltas P mode ds st))"
proof (induction ds arbitrary: st)
  case Nil
  show ?case by simp
next
  case (Cons x ds)
  obtain ms d where x: "x = (ms, d)" by (cases x)
  let ?st = "on_delta P mode d (st\<lparr>time := time st + ms\<rparr>)"
  from Cons.IH [of ?st] on_delta_index [of P mode d "st\<lparr>time := time st + ms\<rparr>"]
  show ?case by (simp add: x)
qed

lemma after_deltas_open_le:
  "count_events is_content_block_stop (events st) + (if isToolUse st then 1 else 0)
     \<le> count_events is_content_block_start (events st) \<Longrightarrow>
   count_events is_content_block_stop (events (after_deltas P mode ds st)) +
     (if isToolUse (after_deltas P mode ds st) then 1 else 0)
     \<le> count_events is_content_block_start (events (after_deltas P mode ds st))"
proof (induction ds arbitrary: st)
  case Nil
  then show ?case by simp
next
  case (Cons x ds)
  obtain ms d where x: "x = (ms, d)" by (cases x)
  let ?st0 = "st\<lparr>time := time st + ms\<rparr>"
  from Cons.prems have "count_events is_content_block_stop (events ?st0) + (if isToolUse ?st0 then 1 else 0)
     \<le> count_events is_content_block_start (events ?st0)" by simp
  then have "count_events is_content_block_stop (events (on_delta P mode d ?st0)) +
     (if isToolUse (on_delta P mode d ?st0) then 1 else 0)
     \<le> count_events is_content_block_start (events (on_delta P mode d ?st0))"
    by (rule on_delta_open_le)
  then show ?case
    unfolding x after_deltas.simps by (rule Cons.IH)
qed

lemma after_deltas_exact:
  "no_tool_call_over_text P mode ds st \<Longrightarrow>
   \<not> (isToolUse st \<and> hasStartedTextBlock st) \<Longrightarrow>
   count_events is_content_block_start (events st) =
     count_events is_content_block_stop (events st) + (if isToolUse st \<or> hasStartedTextBlock st then 1 else 0) \<Longrightarrow>
   count_events is_content_block_start (events (after_deltas P mode ds st)) =
     count_events is_content_block_stop (events (after_deltas P mode ds st)) +
       (if isToolUse (after_deltas P mode ds st) \<or> hasStartedTextBlock (after_deltas P mode ds st)
        then 1 else 0)"
proof (induction ds arbitrary: st)
  case Nil
  then show ?case by simp
next
  case (Cons x ds)
  obtain ms d where x: "x = (ms, d)" by (cases x)
  let ?st0 = "st\<lparr>time := time st + ms\<rparr>"
  from Cons.prems(1) have a: "\<not> (tool_calls d \<noteq> [] \<and> hasStartedTextBlock ?st0 \<and> \<not> isToolUse ?st0)"
    and rest: "no_tool_call_over_text P mode ds (on_delta P mode d ?st0)"
    by (simp_all add: x split: if_splits)
  from Cons.prems(2) have b: "\<not> (isToolUse ?st0 \<and> hasStartedTextBlock ?st0)" by simp
  from Cons.prems(3) have c: "count_events is_content_block_start (events ?st0) =
     count_events is_content_block_stop (events ?st0) + (if isToolUse ?st0 \<or> hasStartedTextBlock ?st0 then 1 else 0)"
    by simp
  note step = on_delta_exact [OF a b c, of P mode]
  show ?case
    unfolding x after_deltas.simps
    using rest step by (intro Cons.IH) simp_all
qed

lemma after_deltas_events_kind:
  "list_all is_content_block_event (events st) \<Longrightarrow>
   list_all is_content_block_event (events (after_deltas P mode ds st))"
proof (induction ds arbitrary: st)
  case Nil
  then show ?case by simp
next
  case (Cons x ds)
  obtain ms d where x: "x = (ms, d)" by (cases x)
  from Cons.prems have "list_all is_content_block_event (events (st\<lparr>time := time st + ms\<rparr>))"
    by simp
  then have "list_all is_content_block_event (events (on_delta P mode d (st\<lparr>time := time st + ms\<rparr>)))"
    by (rule on_delta_events_kind)
  then show ?case unfolding x after_deltas.simps by (rule Cons.IH)
qed

lemma after_deltas_fullOutput:
  "fullOutput (after_deltas P (Some ''file'') ds st) = fullOutput st @ text_of_deltas ds"
proof (induction ds arbitrary: st)
  case Nil
  show ?case by (simp add: text_of_deltas_def)
next
  case (Cons x ds)
  obtain ms d where x: "x = (ms, d)" by (cases x)
  show ?case
    unfolding x after_deltas.simps Cons.IH on_delta_fullOutput
    by (simp add: text_of_deltas_def)
qed

lemma write_files_ok:
  "\<forall>p c. fs_writeFile ev p c = None \<Longrightarrow>
   write_files ev fs s = (Inr (map fst fs), s\<lparr>disk_writes := disk_writes s @ fs\<rparr>)"
proof (induction fs arbitrary: s)
  case Nil
  show ?case by simp
next
  case (Cons f fs)
  obtain p c where f: "f = (p, c)" by (cases f)
  from Cons.prems have "fs_writeFile ev p c = None" by simp
  then show ?case
    unfolding f by (simp add: Cons.IH [OF Cons.prems])
qed

text \<open>The response to a stream that is consumed to its end.\<close>

lemma stream_response_completed:
  assumes "mode = Some ''file'' \<longrightarrow> (\<forall>p c. fs_writeFile ev p c = None)"
  shows "fst (stream_response ev mode chosenModel (completion_of ds) response_init s) = None"
    and "sse_events ev mode chosenModel ds s =
           Message_start (Msg (clock s)) chosenModel # events (final_state ev mode ds (clock s))
           @ [Content_block_stop (contentBlockIndex (final_state ev mode ds (clock s)))]
           @ (if mode = Some ''file''
              then [Files_created
                      (map fst (parseFilesFromText (fullOutput (final_state ev mode ds (clock s)))))]
              else [])
           @ [Message_delta
                (if isToolUse (final_state ev mode ds (clock s)) then Stop_tool_use else Stop_end_turn)
                (currentContentBlocks (final_state ev mode ds (clock s))),
              Message_stop]"
    and "ended (fst (snd (stream_response ev mode chosenModel (completion_of ds) response_init s)))"
proof -
  have c: "consume (JSON_parse ev) mode (chunks (completion_of ds)) (stream_state_init (clock s)) =
             (None, final_state ev mode ds (clock s))"
    by (simp add: consume_completion final_state_def)
  have e: "stream_error (completion_of ds) = None"
    by (simp add: completion_of_def)
  have w: "write_files ev fs s1 = (Inr (map fst fs), s1\<lparr>disk_writes := disk_writes s1 @ fs\<rparr>)"
    if "mode = Some ''file''" for fs and s1 :: "'d process_state"
    using assms that by (intro write_files_ok) simp
  show "fst (stream_response ev mode chosenModel (completion_of ds) response_init s) = None"
    by (simp add: stream_response_def c e w Let_def)
  show "sse_events ev mode chosenModel ds s =
           Message_start (Msg (clock s)) chosenModel # events (final_state ev mode ds (clock s))
           @ [Content_block_stop (contentBlockIndex (final_state ev mode ds (clock s)))]
           @ (if mode = Some ''file''
              then [Files_created
                      (map fst (parseFilesFromText (fullOutput (final_state ev mode ds (clock s)))))]
              else [])
           @ [Message_delta
                (if isToolUse (final_state ev mode ds (clock s)) then Stop_tool_use else Stop_end_turn)
                (currentContentBlocks (final_state ev mode ds (clock s))),
              Message_stop]"
    by (simp add: sse_events_def stream_response_def c e w Let_def finish_def res_write_def
          res_end_def res_setHeader_def response_init_def)
  show "ended (fst (snd (stream_response ev mode chosenModel (completion_of ds) response_init s)))"
    by (simp add: stream_response_def c e w Let_def finish_def res_write_def res_end_def)
qed

section \<open>The shape of the event sequence\<close>

lemma stream_state_init_counts:
  "count_events p (events (stream_state_init t)) = 0"
  "\<not> isToolUse (stream_state_init t)" "\<not> hasStartedTextBlock (stream_state_init t)"
  "contentBlockIndex (stream_state_init t) = 0"
  "fullOutput (stream_state_init t) = []"
  "events (stream_state_init t) = []"
  by (simp_all add: stream_state_init_def)

lemma count_events_content_block:
  "list_all is_content_block_event evs \<Longrightarrow>
     count_events is_message_start evs = 0 \<and> count_events is_message_delta evs = 0 \<and>
     count_events is_message_stop evs = 0"
proof (induction evs)
  case Nil
  show ?case by simp
next
  case (Cons ev evs)
  then show ?case by (cases ev) simp_all
qed

text \<open>
  Claim C4, as amended. For every list of deltas (in file mode: when no file write fails),
  and whatever \<^verbatim>\<open>JSON.parse\<close> makes of the tool arguments: the events sent
  are one \<^verbatim>\<open>message_start\<close>, then events of the loop, then one \<^verbatim>\<open>message_delta\<close> and one
  \<^verbatim>\<open>message_stop\<close>, and these three occur nowhere else. The trailing
  \<^verbatim>\<open>content_block_stop\<close> is written whatever the loop did, so there is at least one stop
  (one more than the final \<^verbatim>\<open>contentBlockIndex\<close>) and at most one more stop than starts.
  When no delta with tool calls arrives while only a text block is open, the stops equal
  the starts if a block is open when the stream ends, and exceed them by one otherwise
  (the empty stream among them).
\<close>

theorem sse_events_shape:
  fixes ev :: "('j, 'e) env"
  assumes "mode = Some ''file'' \<longrightarrow> (\<forall>p c. fs_writeFile ev p c = None)"
  shows "(let evs = sse_events ev mode chosenModel ds s;
              st = final_state ev mode ds (clock s)
          in (\<exists>mid r c. evs = Message_start (Msg (clock s)) chosenModel # mid @ [Message_delta r c, Message_stop]) \<and>
             count_events is_message_start evs = 1 \<and>
             count_events is_message_delta evs = 1 \<and>
             count_events is_message_stop evs = 1 \<and>
             1 \<le> count_events is_content_block_stop evs \<and>
             count_events is_content_block_stop evs = contentBlockIndex st + 1 \<and>
             count_events is_content_block_stop evs \<le> count_events is_content_block_start evs + 1 \<and>
             (no_tool_call_over_text (JSON_parse ev) mode ds (stream_state_init (clock s)) \<longrightarrow>
                count_events is_content_block_stop evs =
                  count_events is_content_block_start evs +
                    (if isToolUse st \<or> hasStartedTextBlock st then 0 else 1)))"
proof -
  let ?st = "final_state ev mode ds (clock s)"
  let ?init = "stream_state_init (clock s) :: 'j stream_state"
  let ?files = "if mode = Some ''file''
              then [Files_created (map fst (parseFilesFromText (fullOutput ?st)))] else []"
  have evs: "sse_events ev mode chosenModel ds s =
           Message_start (Msg (clock s)) chosenModel # events ?st
           @ [Content_block_stop (contentBlockIndex ?st)] @ ?files
           @ [Message_delta (if isToolUse ?st then Stop_tool_use else Stop_end_turn)
                (currentContentBlocks ?st), Message_stop]"
    using assms by (rule stream_response_completed(2))
  have kind: "list_all is_content_block_event (events ?st)"
    unfolding final_state_def
    by (rule after_deltas_events_kind) (simp add: stream_state_init_counts)
  note none = count_events_content_block [OF kind]
  have idx: "count_events is_content_block_stop (events ?st) = contentBlockIndex ?st"
    using after_deltas_index [of "JSON_parse ev" mode ds ?init]
    by (simp add: final_state_def stream_state_init_counts)
  have le: "count_events is_content_block_stop (events ?st)
              \<le> count_events is_content_block_start (events ?st)"
    using after_deltas_open_le [of ?init "JSON_parse ev" mode ds]
    by (simp add: final_state_def stream_state_init_counts split: if_splits)
  have exact: "count_events is_content_block_start (events ?st) =
       count_events is_content_block_stop (events ?st) +
         (if isToolUse ?st \<or> hasStartedTextBlock ?st then 1 else 0)"
    if "no_tool_call_over_text (JSON_parse ev) mode ds ?init"
    using after_deltas_exact [OF that] by (simp add: final_state_def stream_state_init_counts)
  have shape: "\<exists>mid r c. sse_events ev mode chosenModel ds s =
      Message_start (Msg (clock s)) chosenModel # mid @ [Message_delta r c, Message_stop]"
    unfolding evs by (intro exI [of _ "events ?st @ [Content_block_stop (contentBlockIndex ?st)] @ ?files"] exI) simp
  have c1: "count_events is_message_start (sse_events ev mode chosenModel ds s) = 1"
    "count_events is_message_delta (sse_events ev mode chosenModel ds s) = 1"
    "count_events is_message_stop (sse_events ev mode chosenModel ds s) = 1"
    unfolding evs using none by simp_all
  have stops: "count_events is_content_block_stop (sse_events ev mode chosenModel ds s) =
      count_events is_content_block_stop (events ?st) + 1"
    unfolding evs by simp
  have starts: "count_events is_content_block_start (sse_events ev mode chosenModel ds s) =
      count_events is_content_block_start (events ?st)"
    unfolding evs by simp
  show ?thesis
    unfolding Let_def stops starts
    using shape c1 idx le exact by auto
qed

lemmas loop_eval =
  consume.simps after_deltas.simps no_tool_call_over_text.simps on_delta_def on_tool_call_def
  on_content_def res_write_event_def assign_input_def append_text_def text_block_def
  tool_use_block_def stream_state_init_def final_state_def Let_def

theorem sse_events_shape_witness:
  \<open>no_tool_call_over_text (JSON_parse env_example) None tool_then_text (stream_state_init 1000) \<and>
   (\<exists>mid r c. sse_events env_example None ''o3-mini'' tool_then_text (process_init 1000 :: unit process_state) =
      Message_start (Msg 1000) ''o3-mini'' # mid @ [Message_delta r c, Message_stop]) \<and>
   count_events is_content_block_stop
     (sse_events env_example None ''o3-mini'' tool_then_text (process_init 1000 :: unit process_state)) =
   count_events is_content_block_start
     (sse_events env_example None ''o3-mini'' tool_then_text (process_init 1000 :: unit process_state)) + 1 \<and>
   (\<forall>p c. fs_writeFile env_example p c = None) \<and>
   no_tool_call_over_text (JSON_parse env_example) (Some ''file'') file_deltas (stream_state_init 1000) \<and>
   count_events is_content_block_stop
     (sse_events env_example (Some ''file'') ''o3-mini'' file_deltas (process_init 1000 :: unit process_state)) =
   count_events is_content_block_start
     (sse_events env_example (Some ''file'') ''o3-mini'' file_deltas (process_init 1000 :: unit process_state))\<close>
proof -
  let ?s = "process_init 1000 :: unit process_state"
  have c: "clock ?s = 1000"
    by (simp add: process_init_def)
  have h1: "None = Some ''file'' \<longrightarrow> (\<forall>p c. fs_writeFile env_example p c = None)"
    by simp
  have n1: "no_tool_call_over_text (JSON_parse env_example) None tool_then_text (stream_state_init 1000)"
    by (simp add: loop_eval tool_then_text_def env_example_def)
  have f1: "\<not> isToolUse (final_state env_example None tool_then_text 1000)"
    "\<not> hasStartedTextBlock (final_state env_example None tool_then_text 1000)"
    by (simp_all add: loop_eval tool_then_text_def env_example_def)
  from sse_events_shape [OF h1, of "''o3-mini''" tool_then_text ?s]
  have a: "(\<exists>mid r c. sse_events env_example None ''o3-mini'' tool_then_text ?s =
      Message_start (Msg 1000) ''o3-mini'' # mid @ [Message_delta r c, Message_stop]) \<and>
   count_events is_content_block_stop (sse_events env_example None ''o3-mini'' tool_then_text ?s) =
   count_events is_content_block_start (sse_events env_example None ''o3-mini'' tool_then_text ?s) + 1"
    unfolding Let_def c using n1 f1 by simp
  have w: "\<forall>p c. fs_writeFile env_example p c = None"
    by (simp add: env_example_def)
  then have h2: "Some ''file'' = Some ''file'' \<longrightarrow> (\<forall>p c. fs_writeFile env_example p c = None)"
    by simp
  have n2: "no_tool_call_over_text (JSON_parse env_example) (Some ''file'') file_deltas (stream_state_init 1000)"
    by (simp add: loop_eval file_deltas_def)
  have f2: "hasStartedTextBlock (final_state env_example (Some ''file'') file_deltas 1000)"
    by (simp add: loop_eval file_deltas_def)
  from sse_events_shape [OF h2, of "''o3-mini''" file_deltas ?s]
  have b: "count_events is_content_block_stop (sse_events env_example (Some ''file'') ''o3-mini'' file_deltas ?s) =
   count_events is_content_block_start (sse_events env_example (Some ''file'') ''o3-mini'' file_deltas ?s)"
    unfolding Let_def c using n2 f2 by simp
  from n1 a w n2 b show ?thesis by blast
qed

text \<open>
  The claim as stated fails on the empty stream: one \<^verbatim>\<open>content_block_stop\<close>, no
  \<^verbatim>\<open>content_block_start\<close>.
\<close>

theorem stop_count_counterexample:
  "sse_events env_example None ''o3-mini'' [] (process_init 1000 :: unit process_state) =
     [Message_start (Msg 1000) ''o3-mini'', Content_block_stop 0,
      Message_delta Stop_end_turn [], Message_stop] \<and>
   count_events is_content_block_stop
     (sse_events env_example None ''o3-mini'' [] (process_init 1000 :: unit process_state)) \<noteq>
   count_events is_content_block_start
     (sse_events env_example None ''o3-mini'' [] (process_init 1000 :: unit process_state))"
  by (simp add: sse_events_def stream_response_def completion_of_def loop_eval finish_def
        res_write_def res_end_def res_setHeader_def response_init_def process_init_def
        count_events_def)

section \<open>File mode\<close>

lemma on_tool_call_same:
  "same_but_text_deltas sf ss \<Longrightarrow>
   same_but_text_deltas (on_tool_call P tc sf) (on_tool_call P tc ss)"
  by (simp add: same_but_text_deltas_def on_tool_call_def res_write_event_def Let_def
        split: option.splits)

lemma on_content_same:
  "mode \<noteq> Some ''file'' \<Longrightarrow> same_but_text_deltas sf ss \<Longrightarrow>
   same_but_text_deltas (on_content (Some ''file'') t sf) (on_content mode t ss)"
  by (simp add: same_but_text_deltas_def on_content_def res_write_event_def Let_def)

lemma on_delta_same:
  "mode \<noteq> Some ''file'' \<Longrightarrow> same_but_text_deltas sf ss \<Longrightarrow>
   same_but_text_deltas (on_delta P (Some ''file'') d sf) (on_delta P mode d ss)"
  by (simp add: on_delta_def on_tool_call_same on_content_same split: list.splits option.splits)

lemma same_time:
  "same_but_text_deltas sf ss \<Longrightarrow>
   same_but_text_deltas (sf\<lparr>time := time sf + ms\<rparr>) (ss\<lparr>time := time ss + ms\<rparr>)"
  by (simp add: same_but_text_deltas_def)

lemma consume_same:
  assumes "mode \<noteq> Some ''file''"
  shows "same_but_text_deltas sf ss \<Longrightarrow>
     fst (consume P (Some ''file'') cs sf :: 'e js_error option \<times> 'j stream_state) =
       fst (consume P mode cs ss :: 'e js_error option \<times> 'j stream_state) \<and>
     same_but_text_deltas
       (snd (consume P (Some ''file'') cs sf :: 'e js_error option \<times> 'j stream_state))
       (snd (consume P mode cs ss :: 'e js_error option \<times> 'j stream_state))"
proof (induction cs arbitrary: sf ss)
  case Nil
  then show ?case by simp
next
  case (Cons x cs)
  note IH = Cons.IH and prems = Cons.prems
  obtain ms c where x: "x = (ms, c)" by (cases x)
  from prems have t: "same_but_text_deltas (sf\<lparr>time := time sf + ms\<rparr>) (ss\<lparr>time := time ss + ms\<rparr>)"
    by (rule same_time)
  show ?case
  proof (cases "choices c")
    case Nil
    with t show ?thesis by (simp add: x)
  next
    case (Cons d rest)
    from assms t
    have "same_but_text_deltas (on_delta P (Some ''file'') d (sf\<lparr>time := time sf + ms\<rparr>))
        (on_delta P mode d (ss\<lparr>time := time ss + ms\<rparr>))"
      by (rule on_delta_same)
    from IH [OF this] Cons show ?thesis by (simp add: x)
  qed
qed

lemma same_init: "same_but_text_deltas (stream_state_init t) (stream_state_init t)"
  by (simp add: same_but_text_deltas_def stream_state_init_def)

lemma filter_no_text_delta:
  "\<not> list_ex is_text_delta (filter (\<lambda>e. \<not> is_text_delta e) evs)"
  by (simp add: list_ex_iff)

lemma consume_file_no_text:
  "\<not> list_ex is_text_delta
       (events (snd (consume P (Some ''file'') cs (stream_state_init t)
          :: 'e js_error option \<times> 'j stream_state)))"
proof -
  have n: "(None :: string option) \<noteq> Some ''file''" by simp
  from consume_same [OF n same_init, of P cs t, where ?'e = 'e]
  have "events (snd (consume P (Some ''file'') cs (stream_state_init t)
          :: 'e js_error option \<times> 'j stream_state)) =
      filter (\<lambda>e. \<not> is_text_delta e)
        (events (snd (consume P None cs (stream_state_init t)
          :: 'e js_error option \<times> 'j stream_state)))"
    by (simp add: same_but_text_deltas_def)
  then show ?thesis
    by (simp only: filter_no_text_delta not_False_eq_True)
qed

text \<open>In file mode no text delta is sent, whatever the stream and the file writes do.\<close>

lemma stream_response_file_no_text:
  fixes ev :: "('j, 'e) env"
  shows "\<not> list_ex is_text_delta
           (body (fst (snd (stream_response ev (Some ''file'') chosenModel completion
              (response_init :: ('j, 'e) response) s))))"
proof -
  let ?init = "stream_state_init (clock s) :: 'j stream_state"
  obtain err st where c: "(consume (JSON_parse ev) (Some ''file'') (chunks completion) ?init
      :: 'e js_error option \<times> 'j stream_state) = (err, st)"
    by (cases "consume (JSON_parse ev) (Some ''file'') (chunks completion) ?init
      :: 'e js_error option \<times> 'j stream_state")
  have n: "\<not> list_ex is_text_delta (events st)"
    using consume_file_no_text [of "JSON_parse ev" "chunks completion" "clock s", where ?'e = 'e] c
    by simp
  obtain r s2 where w: "write_files ev (parseFilesFromText (fullOutput st)) (s\<lparr>clock := time st\<rparr>) = (r, s2)"
    by (cases "write_files ev (parseFilesFromText (fullOutput st)) (s\<lparr>clock := time st\<rparr>)")
  show ?thesis
    using n
    by (cases err; cases "stream_error completion"; cases r)
       (simp_all add: stream_response_def c w Let_def finish_def res_write_def res_end_def
          res_setHeader_def response_init_def)
qed

text \<open>
  Claim C7, as amended. In file mode the text deltas are suppressed and nothing else. For
  every completion, whether its stream fails or not: the loop in file mode throws what the
  loop in another mode throws and leaves the same variables, and the events it writes are
  the events the other mode writes without the \<^verbatim>\<open>content_block_delta\<close> events that carry
  a text delta, so the starts, the JSON deltas and the stops are written as the deltas
  arrive; and the response holds no text delta, whatever the stream and the file writes
  do. For every list of deltas, \<^verbatim>\<open>fullOutput\<close> is the text of all deltas that reach the
  text branch; when no file write fails, the events sent are \<^verbatim>\<open>message_start\<close>, the events
  of the loop, the trailing stop, \<^verbatim>\<open>files_created\<close>, \<^verbatim>\<open>message_delta\<close> and
  \<^verbatim>\<open>message_stop\<close>, the files parsed from \<^verbatim>\<open>fullOutput\<close> are written, and
  \<^verbatim>\<open>files_created\<close> lists their names.
\<close>

theorem file_mode_events:
  fixes ev :: "('j, 'e) env" and completion :: "'e completion"
  assumes "mode \<noteq> Some ''file''"
  shows "(let loop_file = consume (JSON_parse ev) (Some ''file'') (chunks completion)
                            (stream_state_init (clock s));
              loop_stream = consume (JSON_parse ev) mode (chunks completion)
                              (stream_state_init (clock s));
              st = final_state ev mode ds (clock s);
              r = stream_response ev (Some ''file'') chosenModel (completion_of ds)
                    (response_init :: ('j, 'e) response) s
          in (fst loop_file :: 'e js_error option) = fst loop_stream \<and>
             same_but_text_deltas (snd loop_file) (snd loop_stream) \<and>
             \<not> list_ex is_text_delta
                 (body (fst (snd (stream_response ev (Some ''file'') chosenModel completion
                    (response_init :: ('j, 'e) response) s)))) \<and>
             fullOutput (final_state ev (Some ''file'') ds (clock s)) = text_of_deltas ds \<and>
             ((\<forall>p c. fs_writeFile ev p c = None) \<longrightarrow>
                sse_events ev (Some ''file'') chosenModel ds s =
                  Message_start (Msg (clock s)) chosenModel
                  # filter (\<lambda>e. \<not> is_text_delta e) (events st)
                  @ [Content_block_stop (contentBlockIndex st),
                     Files_created (map fst (parseFilesFromText (text_of_deltas ds))),
                     Message_delta (if isToolUse st then Stop_tool_use else Stop_end_turn)
                       (currentContentBlocks st),
                     Message_stop] \<and>
                disk_writes (snd (snd r)) = disk_writes s @ parseFilesFromText (text_of_deltas ds)))"
proof -
  let ?sf = "final_state ev (Some ''file'') ds (clock s)"
  let ?st = "final_state ev mode ds (clock s)"
  let ?init = "stream_state_init (clock s) :: 'j stream_state"
  note loop = consume_same [OF assms same_init, of "JSON_parse ev" _ "clock s", where ?'e = 'e]
  have same: "same_but_text_deltas ?sf ?st"
    using loop [of "chunks (completion_of ds)"]
    by (simp add: consume_completion final_state_def)
  have full: "fullOutput ?sf = text_of_deltas ds"
    using after_deltas_fullOutput [of "JSON_parse ev" ds ?init]
    by (simp add: final_state_def stream_state_init_counts)
  have evs: "sse_events ev (Some ''file'') chosenModel ds s =
               Message_start (Msg (clock s)) chosenModel
               # filter (\<lambda>e. \<not> is_text_delta e) (events ?st)
               @ [Content_block_stop (contentBlockIndex ?st),
                  Files_created (map fst (parseFilesFromText (text_of_deltas ds))),
                  Message_delta (if isToolUse ?st then Stop_tool_use else Stop_end_turn)
                    (currentContentBlocks ?st),
                  Message_stop]"
    if "\<forall>p c. fs_writeFile ev p c = None"
    using that same stream_response_completed(2) [of "Some ''file''" ev chosenModel ds s]
    by (simp add: full same_but_text_deltas_def)
  have c: "consume (JSON_parse ev) (Some ''file'') (chunks (completion_of ds)) ?init = (None, ?sf)"
    by (simp add: consume_completion final_state_def)
  have e: "stream_error (completion_of ds) = None"
    by (simp add: completion_of_def)
  have disk: "disk_writes (snd (snd (stream_response ev (Some ''file'') chosenModel (completion_of ds)
                    (response_init :: ('j, 'e) response) s))) =
      disk_writes s @ parseFilesFromText (text_of_deltas ds)"
    if "\<forall>p c. fs_writeFile ev p c = None"
    by (simp add: stream_response_def c e write_files_ok [OF that] Let_def full)
  show ?thesis
    unfolding Let_def
    using loop [of "chunks completion"] stream_response_file_no_text [of ev chosenModel completion s]
      full evs disk
    by blast
qed


theorem file_mode_events_witness:
  \<open>(None :: string option) \<noteq> Some ''file'' \<and>
   events (snd (consume (JSON_parse env_example) None (chunks scenario) (stream_state_init 1000)
                  :: string js_error option \<times> string stream_state)) =
     [Content_block_start 0 text_block,
      Content_block_delta 0 (Text_delta ''Hello''),
      Content_block_start 0 (tool_use_block 1020 (Some ''run'')),
      Content_block_delta 0 (Input_json_delta ''{"x":1}''),
      Content_block_stop 0] \<and>
   events (snd (consume (JSON_parse env_example) (Some ''file'') (chunks scenario) (stream_state_init 1000)
                  :: string js_error option \<times> string stream_state)) =
     filter (\<lambda>e. \<not> is_text_delta e)
       [Content_block_start 0 text_block,
        Content_block_delta 0 (Text_delta ''Hello''),
        Content_block_start 0 (tool_use_block 1020 (Some ''run'')),
        Content_block_delta 0 (Input_json_delta ''{"x":1}''),
        Content_block_stop 0] \<and>
   \<not> list_ex is_text_delta
       (body (fst (snd (stream_response env_example (Some ''file'') ''o3-mini'' scenario
          (response_init :: (string, string) response) (process_init 1000 :: unit process_state))))) \<and>
   (\<forall>p c. fs_writeFile env_example p c = None) \<and>
   sse_events env_example (Some ''file'') ''o3-mini'' file_deltas (process_init 1000 :: unit process_state) =
     [Message_start (Msg 1000) ''o3-mini'', Content_block_start 0 text_block,
      Content_block_stop 0, Files_created [''main.tf''],
      Message_delta Stop_end_turn [text_block\<lparr>block_text := Some file_output\<rparr>],
      Message_stop] \<and>
   disk_writes (snd (snd (stream_response env_example (Some ''file'') ''o3-mini''
       (completion_of file_deltas) (response_init :: (string, string) response)
       (process_init 1000 :: unit process_state)))) = [(''main.tf'', ''resource {}'' @ [CHR 0x0A])]\<close>
proof -
  let ?s = "process_init 1000 :: unit process_state"
  have n: "(None :: string option) \<noteq> Some ''file''"
    by simp
  have h: "\<forall>p c. fs_writeFile env_example p c = None"
    by (simp add: env_example_def)
  have c: "clock ?s = 1000" "disk_writes ?s = []"
    by (simp_all add: process_init_def)
  have stream: \<open>events (snd (consume (JSON_parse env_example) None (chunks scenario) (stream_state_init 1000)
                  :: string js_error option \<times> string stream_state)) =
     [Content_block_start 0 text_block,
      Content_block_delta 0 (Text_delta ''Hello''),
      Content_block_start 0 (tool_use_block 1020 (Some ''run'')),
      Content_block_delta 0 (Input_json_delta ''{"x":1}''),
      Content_block_stop 0]\<close>
    by (simp add: scenario_def text_chunk_def tool_chunk_def env_example_def consume.simps
          on_delta_def on_tool_call_def on_content_def res_write_event_def assign_input_def
          append_text_def stream_state_init_def Let_def)
  have t: "text_of_deltas file_deltas = file_output"
    by (simp add: text_of_deltas_def file_deltas_def file_output_def)
  have st: "events (final_state env_example None file_deltas 1000) =
       [Content_block_start 0 text_block,
        Content_block_delta 0 (Text_delta (''main.tf'' @ [CHR 0x0A])),
        Content_block_delta 0 (Text_delta (''resource {}'' @ [CHR 0x0A]))]"
    "contentBlockIndex (final_state env_example None file_deltas 1000) = 0"
    "\<not> isToolUse (final_state env_example None file_deltas 1000)"
    "currentContentBlocks (final_state env_example None file_deltas 1000) =
       [text_block\<lparr>block_text := Some file_output\<rparr>]"
    by (simp_all add: loop_eval file_deltas_def file_output_def)
  have p: "parseFilesFromText file_output = [(''main.tf'', ''resource {}'' @ [CHR 0x0A])]"
    by (simp add: parseFilesFromText_def file_output_def is_name_char_def is_word_def is_space_def
          append_property_def)
  from file_mode_events [OF n, where ev = env_example and completion = scenario and s = ?s
      and ds = file_deltas and chosenModel = "''o3-mini''"]
  have "events (snd (consume (JSON_parse env_example) (Some ''file'') (chunks scenario) (stream_state_init 1000)
                  :: string js_error option \<times> string stream_state)) =
     filter (\<lambda>e. \<not> is_text_delta e)
       (events (snd (consume (JSON_parse env_example) None (chunks scenario) (stream_state_init 1000)
                  :: string js_error option \<times> string stream_state))) \<and>
   \<not> list_ex is_text_delta
       (body (fst (snd (stream_response env_example (Some ''file'') ''o3-mini'' scenario
          (response_init :: (string, string) response) ?s)))) \<and>
   sse_events env_example (Some ''file'') ''o3-mini'' file_deltas ?s =
     Message_start (Msg 1000) ''o3-mini''
     # filter (\<lambda>e. \<not> is_text_delta e) (events (final_state env_example None file_deltas 1000))
     @ [Content_block_stop (contentBlockIndex (final_state env_example None file_deltas 1000)),
        Files_created (map fst (parseFilesFromText file_output)),
        Message_delta (if isToolUse (final_state env_example None file_deltas 1000)
                       then Stop_tool_use else Stop_end_turn)
          (currentContentBlocks (final_state env_example None file_deltas 1000)),
        Message_stop] \<and>
   disk_writes (snd (snd (stream_response env_example (Some ''file'') ''o3-mini''
       (completion_of file_deltas) (response_init :: (string, string) response) ?s))) =
     parseFilesFromText file_output"
    unfolding Let_def c t same_but_text_deltas_def using h by simp
  then show ?thesis
    unfolding stream st(1,2,4) p using n h stream st(3) by simp
qed

text \<open>
  The claim as stated fails: in file mode the loop still writes the start of a text block,
  the start and the JSON deltas of a tool-use block, and the stop of a tool-use block, as
  the deltas arrive.
\<close>

theorem file_mode_counterexample:
  \<open>events (snd (consume (JSON_parse env_example) (Some ''file'') (chunks scenario)
                  (stream_state_init 1000) :: string js_error option \<times> string stream_state)) =
     [Content_block_start 0 text_block,
      Content_block_start 0 (tool_use_block 1020 (Some ''run'')),
      Content_block_delta 0 (Input_json_delta ''{"x":1}''),
      Content_block_stop 0]\<close>
  by (simp add: scenario_def text_chunk_def tool_chunk_def env_example_def consume.simps
        on_delta_def on_tool_call_def on_content_def res_write_event_def assign_input_def
        append_text_def stream_state_init_def Let_def)

section \<open>The handler on concrete requests\<close>

lemmas handler_eval =
  handler_def try_block_def choose_model_def allowedModels_def getModelConfig_def
  chatClient_models_retrieve_def chatClient_create_def maxCompletionTokens_def startsWith_def
  build_request_def systemMessages_def flatten_messages_def flatten_message_def map_tools_def
  map_tool_def system_item_def negotiate_def truthy_number_def config_max_tokens.simps
  stream_response_def finish_def res_write_def res_end_def res_setHeader_def res_status_json_def
  response_init_def process_init_def modelConfigCache_init_def object_prototype_keys_def
  circuitBreaker_init_def upstream_streaming_def upstream_down_def request_example_def
  env_example_def text_chunk_def tool_chunk_def data_example_def

text \<open>
  Claim C2. The handler on the scenario of the specification (text \<^verbatim>\<open>Hello\<close>, a tool call
  \<^verbatim>\<open>run\<close> with arguments \<^verbatim>\<open>{"x":1}\<close>, text \<^verbatim>\<open> world\<close>) sends nine events, not the twelve of
  the claim: the text block is not closed before the tool-use block starts, the tool-use
  block starts at index 0, the parsed arguments are stored in the text block, and the text
  of the third delta closes the tool-use block and is dropped.
\<close>

theorem scenario_events:
  \<open>body (fst (handler env_example (upstream_streaming scenario) request_example (process_init 1000))) =
     [Message_start (Msg 1070) ''o3-mini'',
      Content_block_start 0 text_block,
      Content_block_delta 0 (Text_delta ''Hello''),
      Content_block_start 0 (tool_use_block 1090 (Some ''run'')),
      Content_block_delta 0 (Input_json_delta ''{"x":1}''),
      Content_block_stop 0,
      Content_block_stop 1,
      Message_delta Stop_end_turn
        [text_block\<lparr>block_text := Some ''Hello'', block_input := Some (Parsed ''{"x":1}'')\<rparr>,
         tool_use_block 1090 (Some ''run'')],
      Message_stop]\<close>
  by (simp add: handler_eval loop_eval scenario_def)

text \<open>
  Claim C3. A tool call that arrives while a text block is open: the tool-use block starts
  at index 0 while the text block of index 0 has had no \<^verbatim>\<open>content_block_stop\<close>, so two
  blocks are open at once and one stop answers two starts.
\<close>

theorem tool_call_over_open_text_block:
  \<open>body (fst (handler env_example (upstream_streaming text_then_tool) request_example (process_init 1000))) =
     [Message_start (Msg 1070) ''o3-mini'',
      Content_block_start 0 text_block,
      Content_block_delta 0 (Text_delta ''Hello''),
      Content_block_start 0 (tool_use_block 1090 (Some ''run'')),
      Content_block_delta 0 (Input_json_delta ''{"x":1}''),
      Content_block_stop 0,
      Message_delta Stop_tool_use
        [text_block\<lparr>block_text := Some ''Hello'', block_input := Some (Parsed ''{"x":1}'')\<rparr>,
         tool_use_block 1090 (Some ''run'')],
      Message_stop]\<close>
  by (simp add: handler_eval loop_eval text_then_tool_def)

lemma write_files_breaker:
  "circuitBreaker (snd (write_files ev fs s)) = circuitBreaker s"
proof (induction fs arbitrary: s)
  case Nil
  show ?case by simp
next
  case (Cons f fs)
  obtain p c where f: "f = (p, c)" by (cases f)
  obtain r s' where w: "write_files ev fs (s\<lparr>disk_writes := disk_writes s @ [(p, c)]\<rparr>) = (r, s')"
    by (cases "write_files ev fs (s\<lparr>disk_writes := disk_writes s @ [(p, c)]\<rparr>)")
  from Cons.IH [of "s\<lparr>disk_writes := disk_writes s @ [(p, c)]\<rparr>"] w
  have b: "circuitBreaker s' = circuitBreaker s" by simp
  show ?case
    by (cases "fs_writeFile ev p c"; cases r) (simp_all add: f w b)
qed

lemma getModelConfig_breaker:
  "circuitBreaker (snd (getModelConfig up m s)) = circuitBreaker s"
  by (simp add: getModelConfig_def chatClient_models_retrieve_def Let_def
        split: option.splits prod.splits)

lemma stream_response_breaker:
  fixes ev :: "('j, 'e) env" and res :: "('j, 'e) response"
  shows "circuitBreaker (snd (snd (stream_response ev mode chosenModel completion res s))) =
           circuitBreaker s"
proof -
  obtain err st where c: "(consume (JSON_parse ev) mode (chunks completion) (stream_state_init (clock s))
      :: 'e js_error option \<times> 'j stream_state) = (err, st)"
    by (cases "consume (JSON_parse ev) mode (chunks completion) (stream_state_init (clock s))
      :: 'e js_error option \<times> 'j stream_state")
  obtain r s2 where w: "write_files ev (parseFilesFromText (fullOutput st)) (s\<lparr>clock := time st\<rparr>) = (r, s2)"
    by (cases "write_files ev (parseFilesFromText (fullOutput st)) (s\<lparr>clock := time st\<rparr>)")
  have b: "circuitBreaker s2 = circuitBreaker s"
    using write_files_breaker [of ev "parseFilesFromText (fullOutput st)" "s\<lparr>clock := time st\<rparr>"] w
    by simp
  show ?thesis
    by (cases err; cases "stream_error completion"; cases r)
       (simp_all add: stream_response_def c w b Let_def)
qed

text \<open>No request changes the circuit breaker.\<close>

lemma handler_breaker:
  fixes ev :: "('j, 'e) env"
  shows "circuitBreaker (snd (snd (handler ev up req s))) = circuitBreaker s"
proof -
  let ?m = "choose_model (defaultModel ev) (model req)"
  obtain cfg s1 where g: "getModelConfig up ?m s = (cfg, s1)"
    by (cases "getModelConfig up ?m s")
  have b1: "circuitBreaker s1 = circuitBreaker s"
    using getModelConfig_breaker [of up ?m s] g by simp
  have t: "circuitBreaker (snd (snd (try_block ev up req res s))) = circuitBreaker s"
    for res :: "('j, 'e) response"
  proof (cases "build_request ev req ?m (?m \<in> set allowedModels) cfg")
    case (Inl e)
    then show ?thesis by (simp add: try_block_def g b1 Let_def)
  next
    case (Inr data)
    obtain r s2 where cc: "chatClient_create up data s1 = (r, s2)"
      by (cases "chatClient_create up data s1")
    then have b2: "circuitBreaker s2 = circuitBreaker s"
      using b1 by (auto simp add: chatClient_create_def Let_def split: prod.splits)
    show ?thesis
      by (cases r) (simp_all add: try_block_def g Inr cc b2 stream_response_breaker Let_def)
  qed
  obtain err res s' where tb: "try_block ev up req (response_init :: ('j, 'e) response) s = (err, res, s')"
    by (cases "try_block ev up req (response_init :: ('j, 'e) response) s")
  with t [of response_init] have "circuitBreaker s' = circuitBreaker s" by simp
  then show ?thesis
    by (cases err) (simp_all add: handler_def tb res_status_json_def Let_def)
qed

text \<open>
  Claim C1. The handler calls \<^verbatim>\<open>chatClient.chat.completions.create\<close> itself (line 275) and
  \<^verbatim>\<open>getCompletionWithRetry\<close> has no caller. On a fresh process whose upstream refuses the
  chat call, the handler makes one attempt, answers 400 and leaves the breaker as it was;
  \<^verbatim>\<open>getCompletionWithRetry\<close>, called with the same request in the state in which the handler
  makes its call, makes three attempts and opens the breaker.
\<close>

theorem handler_bypasses_getCompletionWithRetry:
  "upstream_calls (snd (snd (handler env_example upstream_down request_example (process_init 1000)))) =
     [Models_retrieve ''o3-mini'', Chat_completions_create data_example] \<and>
   circuitBreaker (snd (snd (handler env_example upstream_down request_example (process_init 1000)))) =
     circuitBreaker_init \<and>
   statusCode (fst (handler env_example upstream_down request_example (process_init 1000))) = 400 \<and>
   json_body (fst (handler env_example upstream_down request_example (process_init 1000))) =
     Some (Upstream_error ''ECONNRESET'') \<and>
   upstream_calls (snd (getCompletionWithRetry upstream_down data_example
       (snd (getModelConfig upstream_down ''o3-mini'' (process_init 1000))))) =
     [Models_retrieve ''o3-mini'', Chat_completions_create data_example,
      Chat_completions_create data_example, Chat_completions_create data_example] \<and>
   open (circuitBreaker (snd (getCompletionWithRetry upstream_down data_example
       (snd (getModelConfig upstream_down ''o3-mini'' (process_init 1000))))))"
  by (simp add: handler_eval getCompletionWithRetry_def retry_loop.simps maxAttempts_def Let_def)

text \<open>
  Claim C6. \<^verbatim>\<open>isNewModel\<close> is \<^verbatim>\<open>allowedModels.includes(chosenModel)\<close>, and \<^verbatim>\<open>gpt-4\<close> is an
  allowed model: a request for it with temperature 0.2 and \<^verbatim>\<open>max_tokens\<close> 5000 goes upstream
  with temperature 1, \<^verbatim>\<open>max_completion_tokens\<close> clamped to 4096 and no \<^verbatim>\<open>max_tokens\<close>.
\<close>

theorem gpt4_temperature_forced:
  "temperature request_gpt4 = Some (1 / 5) \<and> max_tokens request_gpt4 = Some 5000 \<and>
   upstream_calls (snd (snd (handler env_example (upstream_streaming scenario) request_gpt4
       (process_init 1000)))) =
     [Models_retrieve ''gpt-4'',
      Chat_completions_create
        (data_example\<lparr>data_model := ''gpt-4'', data_temperature := Some 1,
           data_max_completion_tokens := Some 4096, data_max_tokens := None\<rparr>)]"
  by (simp add: handler_eval loop_eval scenario_def request_gpt4_def)

section \<open>Tools without a description\<close>

lemma getModelConfig_lookup:
  "upstream_calls (snd (getModelConfig up m s)) =
     upstream_calls s @ (if modelConfigCache s m = None then [Models_retrieve m] else [])"
  by (simp add: getModelConfig_def chatClient_models_retrieve_def Let_def
        split: option.splits prod.splits)

lemma map_items_TypeError:
  assumes "\<And>x e. f x = Inl e \<Longrightarrow> is_TypeError e"
  shows "map_items f xs = Inl e \<Longrightarrow> is_TypeError e"
proof (induction xs arbitrary: e)
  case Nil
  then show ?case by simp
next
  case (Cons x xs)
  then show ?case
    using assms by (auto split: sum.splits)
qed

lemma systemMessages_TypeError:
  "systemMessages sys = Inl e \<Longrightarrow> is_TypeError e"
  by (auto simp add: systemMessages_def system_item_def
        split: maybe_array.splits sum.splits option.splits system_block.splits
        dest!: map_items_TypeError [rotated])

lemma flatten_messages_TypeError:
  "flatten_messages ev msgs = Inl e \<Longrightarrow> is_TypeError e"
  by (auto simp add: flatten_messages_def flatten_message_def
        split: maybe_array.splits sum.splits option.splits
        dest!: map_items_TypeError [rotated])

lemma map_tool_missing:
  fixes ts :: "'j tool_definition option list"
  assumes "Some d \<in> set ts" "description d = None"
  shows "\<exists>e. (map_items map_tool ts :: 'e js_error + 'j function_schema list) = Inl e \<and> is_TypeError e \<and>
           (None \<notin> set ts \<longrightarrow> e = TypeError_reading ''length'')"
  using assms(1)
proof (induction ts)
  case Nil
  then show ?case by simp
next
  case (Cons t ts)
  show ?case
  proof (cases t)
    case None
    then show ?thesis by (simp add: map_tool_def)
  next
    case (Some x)
    show ?thesis
    proof (cases "description x")
      case None
      with Some show ?thesis by (simp add: map_tool_def)
    next
      case (Some y)
      with \<open>t = Some x\<close> Cons.prems assms(2) have "Some d \<in> set ts" by auto
      from Cons.IH [OF this] Some \<open>t = Some x\<close> show ?thesis
        by (auto simp add: map_tool_def)
    qed
  qed
qed

lemma build_request_missing:
  fixes ev :: "('j, 'e) env"
  assumes "tools req = Array ts" "Some d \<in> set ts" "description d = None"
  shows "\<exists>e. build_request ev req chosenModel isNewModel modelConfig = Inl e \<and> is_TypeError e \<and>
           (case systemMessages (system req) of
              Inl e' \<Rightarrow> e = e'
            | Inr sys \<Rightarrow>
                (case flatten_messages ev (messages req) of
                   Inl e' \<Rightarrow> e = e'
                 | Inr ms \<Rightarrow> None \<notin> set ts \<longrightarrow> e = TypeError_reading ''length''))"
proof (cases "systemMessages (system req) :: 'e js_error + 'j message list")
  case (Inl e)
  then show ?thesis
    by (simp add: build_request_def systemMessages_TypeError)
next
  case sys: (Inr sys)
  show ?thesis
  proof (cases "flatten_messages ev (messages req)")
    case (Inl e)
    with sys show ?thesis
      by (simp add: build_request_def flatten_messages_TypeError)
  next
    case (Inr ms)
    from map_tool_missing [OF assms(2,3)]
    obtain e :: "'e js_error" where "map_items map_tool ts = Inl e" "is_TypeError e"
      "None \<notin> set ts \<longrightarrow> e = TypeError_reading ''length''"
      by blast
    with sys Inr assms(1) show ?thesis
      by (simp add: build_request_def map_tools_def Let_def)
  qed
qed

text \<open>
  Claim C10, as amended. For every request whose \<^verbatim>\<open>tools\<close> is an array that holds a tool
  without a description, in every process state and for every upstream: the response is
  the 400 JSON error and reports a TypeError, nothing is streamed, and no chat completion
  is requested. The metadata lookup of \<^verbatim>\<open>getModelConfig\<close> for the chosen model precedes
  the translation of the request: it is the one upstream call made, and it is made exactly
  when the model is not in the cache. The error reported is the first one thrown: that of
  \<^verbatim>\<open>system.map\<close> if it throws, else that of \<^verbatim>\<open>messages.map\<close> if it throws, else that of
  the tool mapping, which is the TypeError of reading \<^verbatim>\<open>length\<close> when no entry of \<^verbatim>\<open>tools\<close>
  is \<^verbatim>\<open>null\<close>.
\<close>

theorem tool_without_description:
  fixes ev :: "('j, 'e) env"
  assumes "tools req = Array ts" "Some d \<in> set ts" "description d = None"
  shows "(let chosenModel = choose_model (defaultModel ev) (model req);
              (res, uncaught, s') = handler ev up req s
          in statusCode res = 400 \<and> body res = [] \<and> ended res \<and> uncaught = None \<and>
             (\<exists>e. json_body res = Some e \<and> is_TypeError e) \<and>
             (case systemMessages (system req) of
                Inl e \<Rightarrow> json_body res = Some e
              | Inr sys \<Rightarrow>
                  (case flatten_messages ev (messages req) of
                     Inl e \<Rightarrow> json_body res = Some e
                   | Inr ms \<Rightarrow>
                       None \<notin> set ts \<longrightarrow> json_body res = Some (TypeError_reading ''length''))) \<and>
             upstream_calls s' =
               upstream_calls s
               @ (if modelConfigCache s chosenModel = None then [Models_retrieve chosenModel] else []))"
proof -
  let ?m = "choose_model (defaultModel ev) (model req)"
  obtain cfg s1 where g: "getModelConfig up ?m s = (cfg, s1)"
    by (cases "getModelConfig up ?m s")
  have calls: "upstream_calls s1 =
      upstream_calls s @ (if modelConfigCache s ?m = None then [Models_retrieve ?m] else [])"
    using getModelConfig_lookup [of up ?m s] g by simp
  from build_request_missing [OF assms, of ev ?m "?m \<in> set allowedModels" cfg]
  obtain e where b: "build_request ev req ?m (?m \<in> set allowedModels) cfg = Inl e"
    and e: "is_TypeError e"
      "(case systemMessages (system req) of
          Inl e' \<Rightarrow> e = e'
        | Inr sys \<Rightarrow>
            (case flatten_messages ev (messages req) of
               Inl e' \<Rightarrow> e = e'
             | Inr ms \<Rightarrow> None \<notin> set ts \<longrightarrow> e = TypeError_reading ''length''))"
    by blast
  have t: "try_block ev up req response_init s = (Some e, response_init, s1)"
    by (simp add: try_block_def Let_def g b)
  show ?thesis
    unfolding handler_def t
    using calls e by (simp add: res_status_json_def response_init_def Let_def split: sum.splits)
qed

theorem tool_without_description_witness:
  \<open>tools request_tool_without_description =
     Array [Some \<lparr>name = Some ''Bash'', description = None, input_schema = Some ''{"type":"object"}''\<rparr>] \<and>
   modelConfigCache (process_init 1000 :: string upstream_request process_state) ''o3-mini'' = None \<and>
   statusCode (fst (handler env_example (upstream_streaming scenario)
     request_tool_without_description (process_init 1000))) = 400 \<and>
   json_body (fst (handler env_example (upstream_streaming scenario)
     request_tool_without_description (process_init 1000))) = Some (TypeError_reading ''length'') \<and>
   body (fst (handler env_example (upstream_streaming scenario)
     request_tool_without_description (process_init 1000))) = [] \<and>
   ended (fst (handler env_example (upstream_streaming scenario)
     request_tool_without_description (process_init 1000))) \<and>
   fst (snd (handler env_example (upstream_streaming scenario)
     request_tool_without_description (process_init 1000))) = None \<and>
   upstream_calls (snd (snd (handler env_example (upstream_streaming scenario)
     request_tool_without_description (process_init 1000)))) = [Models_retrieve ''o3-mini'']\<close>
proof -
  let ?d = \<open>\<lparr>name = Some ''Bash'', description = None, input_schema = Some ''{"type":"object"}''\<rparr>
    :: string tool_definition\<close>
  let ?s = "process_init 1000 :: string upstream_request process_state"
  have h1: "tools request_tool_without_description = Array [Some ?d]"
    by (simp add: request_tool_without_description_def)
  have h2: "Some ?d \<in> set [Some ?d]"
    by simp
  have h3: "description ?d = None"
    by simp
  have m: "choose_model (defaultModel env_example) (model request_tool_without_description) = ''o3-mini''"
    by (simp add: request_tool_without_description_def request_example_def env_example_def
          choose_model_def allowedModels_def)
  have c: "modelConfigCache ?s ''o3-mini'' = None" "upstream_calls ?s = []"
    by (simp_all add: process_init_def modelConfigCache_init_def object_prototype_keys_def)
  have sys: "systemMessages (system request_tool_without_description) =
      (Inr [defaultSystemMessage] :: string js_error + string message list)"
    by (simp add: request_tool_without_description_def request_example_def systemMessages_def)
  have ms: \<open>flatten_messages env_example (messages request_tool_without_description) =
      Inr [\<lparr>role = Some ''user'', msg_content = Scalar ''"list files"''\<rparr>]\<close>
    by (simp add: request_tool_without_description_def request_example_def flatten_messages_def
          flatten_message_def)
  from tool_without_description [OF h1 h2 h3, of env_example "upstream_streaming scenario" ?s]
  show ?thesis
    unfolding Let_def m sys ms using h1 c by (simp add: case_prod_unfold)
qed

text \<open>
  The claim as stated fails in a process that has not resolved the model yet: the
  metadata lookup has gone upstream before the tool mapping throws. It fails too when
  \<^verbatim>\<open>system\<close> is a string: \<^verbatim>\<open>system.map\<close> throws and the tool mapping is not reached.
\<close>

theorem lookup_precedes_tool_mapping_counterexample:
  "upstream_calls (snd (snd (handler env_example (upstream_streaming scenario)
     request_tool_without_description (process_init 1000)))) = [Models_retrieve ''o3-mini''] \<and>
   json_body (fst (handler env_example (upstream_streaming scenario)
     request_tool_without_description (process_init 1000))) = Some (TypeError_reading ''length'') \<and>
   json_body (fst (handler env_example (upstream_streaming scenario)
     request_system_string (process_init 1000))) = Some (TypeError_not_a_function ''system.map'')"
  by (simp add: handler_eval request_tool_without_description_def request_system_string_def Let_def)

section \<open>Failures\<close>

lemma consume_events_kind:
  "list_all is_content_block_event (events st) \<Longrightarrow>
   list_all is_content_block_event
     (events (snd (consume P mode cs st :: 'e js_error option \<times> 'j stream_state)))"
proof (induction cs arbitrary: st)
  case Nil
  then show ?case by simp
next
  case (Cons x cs)
  note IH = Cons.IH and prems = Cons.prems
  obtain ms c where x: "x = (ms, c)" by (cases x)
  show ?case
  proof (cases "choices c")
    case Nil
    with prems show ?thesis by (simp add: x)
  next
    case (Cons d rest)
    from prems have "list_all is_content_block_event (events (st\<lparr>time := time st + ms\<rparr>))"
      by simp
    then have "list_all is_content_block_event
        (events (on_delta P mode d (st\<lparr>time := time st + ms\<rparr>)))"
      by (rule on_delta_events_kind)
    then have "list_all is_content_block_event
        (events (snd (consume P mode cs (on_delta P mode d (st\<lparr>time := time st + ms\<rparr>))
           :: 'e js_error option \<times> 'j stream_state)))"
      by (rule IH)
    with Cons show ?thesis by (simp add: x)
  qed
qed

lemma content_block_event_not_stop:
  "list_all is_content_block_event evs \<Longrightarrow> \<not> list_ex is_message_stop evs"
proof (induction evs)
  case Nil
  show ?case by simp
next
  case (Cons ev evs)
  then show ?case by (cases ev) simp_all
qed

text \<open>A stream that fails: what has been written, and that the response is still open.\<close>

lemma stream_response_failed:
  fixes ev :: "('j, 'e) env"
  assumes "stream_response ev mode chosenModel completion (response_init :: ('j, 'e) response) s =
             (Some e, res, s')"
  shows "headersSent res \<and> \<not> ended res \<and> json_body res = None \<and> body res \<noteq> [] \<and>
         \<not> list_ex is_message_stop (body res)"
proof -
  let ?init = "stream_state_init (clock s) :: 'j stream_state"
  obtain err st where c: "(consume (JSON_parse ev) mode (chunks completion) ?init
      :: 'e js_error option \<times> 'j stream_state) = (err, st)"
    by (cases "consume (JSON_parse ev) mode (chunks completion) ?init :: 'e js_error option \<times> 'j stream_state")
  have "list_all is_content_block_event (events (snd (consume (JSON_parse ev) mode (chunks completion) ?init
      :: 'e js_error option \<times> 'j stream_state)))"
    by (rule consume_events_kind) (simp add: stream_state_init_counts)
  then have k: "list_all is_content_block_event (events st)"
    by (simp add: c)
  then have ns: "\<not> list_ex is_message_stop (events st)"
    by (rule content_block_event_not_stop)
  from assms ns show ?thesis
    by (auto simp add: stream_response_def c Let_def res_write_def res_setHeader_def
          response_init_def finish_def res_end_def
          split: option.splits if_splits prod.splits sum.splits)
qed

lemma try_block_failed:
  fixes ev :: "('j, 'e) env"
  assumes "try_block ev up req (response_init :: ('j, 'e) response) s = (Some e, res, s')"
  shows "(body res = [] \<and> res = response_init) \<or>
         (headersSent res \<and> \<not> ended res \<and> json_body res = None \<and> body res \<noteq> [] \<and>
          \<not> list_ex is_message_stop (body res))"
proof -
  let ?m = "choose_model (defaultModel ev) (model req)"
  obtain cfg s1 where g: "getModelConfig up ?m s = (cfg, s1)"
    by (cases "getModelConfig up ?m s")
  show ?thesis
  proof (cases "build_request ev req ?m (?m \<in> set allowedModels) cfg")
    case (Inl err)
    with assms g have "res = response_init"
      by (simp add: try_block_def Let_def)
    then show ?thesis by (simp add: response_init_def)
  next
    case (Inr data)
    obtain r s2 where cc: "chatClient_create up data s1 = (r, s2)"
      by (cases "chatClient_create up data s1")
    show ?thesis
    proof (cases r)
      case (Inl err)
      with assms g Inr cc have "res = response_init"
        by (simp add: try_block_def Let_def)
      then show ?thesis by (simp add: response_init_def)
    next
      case (Inr completion)
      with assms g \<open>build_request ev req ?m (?m \<in> set allowedModels) cfg = Inr data\<close> cc
      have "stream_response ev (output_mode req) ?m completion (response_init :: ('j, 'e) response) s2 =
          (Some e, res, s')"
        by (simp add: try_block_def Let_def)
      from stream_response_failed [OF this] show ?thesis by simp
    qed
  qed
qed

text \<open>
  Whenever the \<^verbatim>\<open>try\<close> block throws: if nothing has been written, the response is status
  400 with the JSON body reporting the error, and it is ended; if something has been
  written, what was written has no \<^verbatim>\<open>message_stop\<close>, the \<^verbatim>\<open>catch\<close> block adds nothing to
  it and sends no JSON body (\<^verbatim>\<open>res.json\<close> throws on sent headers), the response is not
  ended, and the error of \<^verbatim>\<open>res.json\<close> escapes the handler.
\<close>

lemma handler_failure:
  fixes ev :: "('j, 'e) env"
  assumes "try_block ev up req (response_init :: ('j, 'e) response) s = (Some e, res0, s0)"
  shows "(let (res, uncaught, s') = handler ev up req s
          in (body res0 = [] \<longrightarrow>
                statusCode res = 400 \<and> json_body res = Some e \<and> body res = [] \<and> ended res \<and>
                uncaught = None) \<and>
             (body res0 \<noteq> [] \<longrightarrow>
                json_body res = None \<and> body res = body res0 \<and>
                \<not> list_ex is_message_stop (body res) \<and> \<not> ended res \<and>
                uncaught = Some ERR_HTTP_HEADERS_SENT))"
proof -
  have "(body res0 = [] \<and> res0 = response_init) \<or>
         (headersSent res0 \<and> \<not> ended res0 \<and> json_body res0 = None \<and> body res0 \<noteq> [] \<and>
          \<not> list_ex is_message_stop (body res0))"
    using assms by (rule try_block_failed)
  then consider (before) "body res0 = []" "res0 = response_init"
    | (after) "headersSent res0" "\<not> ended res0" "json_body res0 = None" "body res0 \<noteq> []"
        "\<not> list_ex is_message_stop (body res0)"
    by auto
  then show ?thesis
  proof cases
    case before
    then show ?thesis
      unfolding handler_def assms
      by (simp add: res_status_json_def response_init_def)
  next
    case after
    then show ?thesis
      unfolding handler_def assms
      by (simp add: res_status_json_def)
  qed
qed


end
